theory Spec2Isabelle
  imports Main
begin

section \<open>Python values\<close>

text \<open>
  The exporter works on the JSON document returned by the task service, as Python's
  \<^verbatim>\<open>json\<close> module decodes it: \<^verbatim>\<open>None\<close>, \<^verbatim>\<open>bool\<close>, \<^verbatim>\<open>int\<close> (unbounded),
  \<^verbatim>\<open>float\<close>, \<^verbatim>\<open>str\<close>, \<^verbatim>\<open>list\<close> and \<^verbatim>\<open>dict\<close> with string keys.
  A float is a sign, a mantissa and a binary exponent (\<open>Finite s m e\<close> is
  \<open>(-1)\<^sup>s * m * 2\<^sup>e\<close>) or an infinity; a decoded object is an association list in
  insertion order whose keys are distinct, looked up with \<^const>\<open>map_of\<close>. The characters
  of a string are code points below 256.
\<close>

datatype py_error = AttributeError | TypeError | OverflowError | ValueError

datatype pyfloat = Finite bool nat int | Infinite bool

datatype json =
    JNull
  | JBool bool
  | JInt int
  | JFloat pyfloat
  | JStr string
  | JList "json list"
  | JDict "(string \<times> json) list"

subsection \<open>Float arithmetic: \<^verbatim>\<open>x / 1000\<close> and \<^verbatim>\<open>repr\<close>\<close>

text \<open>
  True division rounds the exact quotient to the nearest double (53 bits, ties to even,
  exponent at least \<open>-1074\<close>). Dividing an \<^verbatim>\<open>int\<close> raises \<^verbatim>\<open>OverflowError\<close> when the
  rounded quotient reaches \<open>2\<^sup>1\<^sup>0\<^sup>2\<^sup>4\<close>; dividing a float gives an infinity there.
  \<^verbatim>\<open>str\<close> of a float is the shortest decimal string that reads back as the same double,
  printed with an exponent when the decimal point position is below \<open>-3\<close> or above \<open>16\<close>.
\<close>

fun bitlen :: "nat \<Rightarrow> nat" where
  "bitlen n = (if n = 0 then 0 else Suc (bitlen (n div 2)))"

declare bitlen.simps [simp del]

fun ndigits :: "nat \<Rightarrow> nat" where
  "ndigits n = (if n < 10 then 1 else Suc (ndigits (n div 10)))"

declare ndigits.simps [simp del]

fun dec_digits :: "nat \<Rightarrow> string" where
  "dec_digits n = (if n < 10 then [''0123456789'' ! n]
     else dec_digits (n div 10) @ [''0123456789'' ! (n mod 10)])"

declare dec_digits.simps [simp del]

definition round_half_even :: "nat \<Rightarrow> nat \<Rightarrow> nat" where
  "round_half_even n d =
     (if 2 * (n mod d) < d then n div d
      else if d < 2 * (n mod d) then n div d + 1
      else if even (n div d) then n div d else n div d + 1)"

definition round_exp :: "nat \<Rightarrow> nat \<Rightarrow> int" where
  "round_exp p q =
     (let e1 = max (int (bitlen p) - int (bitlen q) - 53) (- 1074)
      in if 2 ^ 53 * (q * 2 ^ nat e1) \<le> p * 2 ^ nat (- e1) then e1 + 1 else e1)"

definition round_at :: "nat \<Rightarrow> nat \<Rightarrow> int \<Rightarrow> nat \<times> int" where
  "round_at p q e = (round_half_even (p * 2 ^ nat (- e)) (q * 2 ^ nat e), e)"

definition round_frac :: "nat \<Rightarrow> nat \<Rightarrow> nat \<times> int" where
  "round_frac p q = round_at p q (round_exp p q)"

definition too_large :: "nat \<Rightarrow> int \<Rightarrow> bool" where
  "too_large m e = (2 ^ 1024 * 2 ^ nat (- e) \<le> m * 2 ^ nat e)"

fun int_quotient :: "bool \<Rightarrow> nat \<times> int \<Rightarrow> py_error + pyfloat" where
  "int_quotient s (m, e) =
     (if too_large m e then Inl OverflowError else Inr (Finite s m e))"

definition int_truediv_1000 :: "int \<Rightarrow> py_error + pyfloat" where
  "int_truediv_1000 n =
     (if n = 0 then Inr (Finite False 0 0)
      else int_quotient (n < 0) (round_frac (nat \<bar>n\<bar>) 1000))"

fun float_quotient :: "bool \<Rightarrow> nat \<times> int \<Rightarrow> pyfloat" where
  "float_quotient s (m, e) =
     (if too_large m e then Infinite s
      else if m = 0 then Finite s 0 0 else Finite s m e)"

fun float_truediv_1000 :: "pyfloat \<Rightarrow> pyfloat" where
  "float_truediv_1000 (Infinite s) = Infinite s"
| "float_truediv_1000 (Finite s m e) =
     (if m = 0 then Finite s 0 0
      else float_quotient s (round_frac (m * 2 ^ nat e) (1000 * 2 ^ nat (- e))))"

fun strip_even :: "nat \<Rightarrow> int \<Rightarrow> nat \<times> int" where
  "strip_even m e = (if m \<noteq> 0 \<and> even m then strip_even (m div 2) (e + 1) else (m, e))"

declare strip_even.simps [simp del]

fun widen :: "nat \<times> int \<Rightarrow> nat \<times> int" where
  "widen (m, e) =
     (m * 2 ^ min (53 - bitlen m) (nat (e + 1074)),
      e - int (min (53 - bitlen m) (nat (e + 1074))))"

definition normal_form :: "nat \<Rightarrow> int \<Rightarrow> nat \<times> int" where
  "normal_form m e = widen (strip_even m e)"

function first_scale :: "nat \<Rightarrow> nat \<Rightarrow> nat \<Rightarrow> nat" where
  "first_scale p q j = (if p = 0 \<or> q \<le> p * 10 ^ j then j else first_scale p q (j + 1))"
  by pat_completeness auto
termination
proof (relation "measure (\<lambda>(p, q, j). q - p * 10 ^ j)")
  show "wf (measure (\<lambda>(p, q, j). q - p * 10 ^ j))" by simp
next
  fix p q j :: nat
  assume a: "\<not> (p = 0 \<or> q \<le> p * 10 ^ j)"
  then have "p * 10 ^ j < p * 10 ^ (j + 1)" by simp
  with a show "((p, q, j + 1), (p, q, j)) \<in> measure (\<lambda>(p, q, j). q - p * 10 ^ j)"
    by (simp add: diff_less_mono2)
qed

declare first_scale.simps [simp del]

definition dec_exponent :: "nat \<Rightarrow> nat \<Rightarrow> int" where
  "dec_exponent p q =
     (if q \<le> p then int (ndigits (p div q)) else 1 - int (first_scale p q 1))"

definition candidate :: "nat \<Rightarrow> int \<Rightarrow> int \<Rightarrow> nat \<Rightarrow> nat option" where
  "candidate M E d n =
     (let X = E - 2;
          up = 2 ^ nat X * 10 ^ nat (int n - d);
          S = 2 ^ nat (- X) * 10 ^ nat (d - int n);
          W = 4 * M * up;
          HI = (4 * M + 2) * up;
          LO = (if M = 2 ^ 52 \<and> - 1074 < E then 4 * M - 1 else 4 * M - 2) * up;
          c0 = W div S;
          c1 = W div S + 1;
          in0 = (if even M then LO \<le> c0 * S \<and> c0 * S \<le> HI
                 else LO < c0 * S \<and> c0 * S < HI);
          in1 = (if even M then LO \<le> c1 * S \<and> c1 * S \<le> HI
                 else LO < c1 * S \<and> c1 * S < HI)
      in if in0 \<and> in1 then
           (if W - c0 * S < c1 * S - W then Some c0
            else if c1 * S - W < W - c0 * S then Some c1
            else if even c0 then Some c0 else Some c1)
         else if in0 then Some c0
         else if in1 then Some c1
         else None)"

function shortest :: "nat \<Rightarrow> int \<Rightarrow> int \<Rightarrow> nat \<Rightarrow> nat \<times> nat" where
  "shortest M E d n =
     (if 17 \<le> n then
        (round_half_even (4 * M * (2 ^ nat (E - 2) * 10 ^ nat (int n - d)))
                         (2 ^ nat (- (E - 2)) * 10 ^ nat (d - int n)), n)
      else if candidate M E d n = None then shortest M E d (n + 1)
      else (the (candidate M E d n), n))"
  by pat_completeness auto
termination
  by (relation "measure (\<lambda>(M, E, d, n). 17 - n)") auto

declare shortest.simps [simp del]

definition exp_digits :: "int \<Rightarrow> string" where
  "exp_digits ex =
     (if ex < 0 then ''-'' else ''+'') @
     (if \<bar>ex\<bar> < 10 then ''0'' else '''') @ dec_digits (nat \<bar>ex\<bar>)"

fun zeros :: "nat \<Rightarrow> string" where
  "zeros n = (if n = 0 then [] else CHR ''0'' # zeros (n - 1))"

declare zeros.simps [simp del]

definition format_repr :: "string \<Rightarrow> int \<Rightarrow> string" where
  "format_repr ds decpt =
     (if decpt \<le> - 4 \<or> 16 < decpt then
        take 1 ds @ (if 1 < length ds then ''.'' @ drop 1 ds else '''')
        @ ''e'' @ exp_digits (decpt - 1)
      else if decpt \<le> 0 then ''0.'' @ zeros (nat (- decpt)) @ ds
      else if length ds \<le> nat decpt then
        ds @ zeros (nat decpt - length ds) @ ''.0''
      else take (nat decpt) ds @ ''.'' @ drop (nat decpt) ds)"

definition rstrip_zeros :: "string \<Rightarrow> string" where
  "rstrip_zeros ds = rev (dropWhile (\<lambda>x. x = CHR ''0'') (rev ds))"

fun render_digits :: "int \<Rightarrow> string \<Rightarrow> nat \<Rightarrow> string" where
  "render_digits d ds n = format_repr (rstrip_zeros ds) (d + int (length ds) - int n)"

fun render :: "int \<Rightarrow> nat \<times> nat \<Rightarrow> string" where
  "render d (c, n) = render_digits d (dec_digits c) n"

fun repr_at :: "nat \<times> int \<Rightarrow> int \<Rightarrow> string" where
  "repr_at (M, E) d = render d (shortest M E d 1)"

fun repr_normal :: "nat \<times> int \<Rightarrow> string" where
  "repr_normal (M, E) = repr_at (M, E) (dec_exponent (M * 2 ^ nat E) (2 ^ nat (- E)))"

fun float_repr :: "pyfloat \<Rightarrow> string" where
  "float_repr (Infinite s) = (if s then ''-inf'' else ''inf'')"
| "float_repr (Finite s m e) =
     (if s then ''-'' else '''') @
     (if m = 0 then ''0.0'' else repr_normal (normal_form m e))"

declare float_repr.simps [simp del]


subsection \<open>Truthiness, equality, attribute access, iteration\<close>

fun truthy :: "json \<Rightarrow> bool" where
  "truthy JNull = False"
| "truthy (JBool b) = b"
| "truthy (JInt i) = (i \<noteq> 0)"
| "truthy (JFloat (Finite s m e)) = (m \<noteq> 0)"
| "truthy (JFloat (Infinite s)) = True"
| "truthy (JStr s) = (s \<noteq> [])"
| "truthy (JList xs) = (xs \<noteq> [])"
| "truthy (JDict kvs) = (kvs \<noteq> [])"

text \<open>\<^verbatim>\<open>obj.get(key, default)\<close>: only a \<^verbatim>\<open>dict\<close> has the method.\<close>

fun py_get :: "json \<Rightarrow> string \<Rightarrow> json \<Rightarrow> py_error + json" where
  "py_get (JDict kvs) key dflt = Inr (case map_of kvs key of Some v \<Rightarrow> v | None \<Rightarrow> dflt)"
| "py_get _ key dflt = Inl AttributeError"

text \<open>
  \<^verbatim>\<open>for x in obj\<close>: a list gives its items, a dict its keys, a string its characters;
  nothing else is iterable.
\<close>

fun py_iter :: "json \<Rightarrow> py_error + json list" where
  "py_iter (JList xs) = Inr xs"
| "py_iter (JDict kvs) = Inr (map (\<lambda>kv. JStr (fst kv)) kvs)"
| "py_iter (JStr s) = Inr (map (\<lambda>c. JStr [c]) s)"
| "py_iter _ = Inl TypeError"

text \<open>
  \<^verbatim>\<open>==\<close>: numbers (\<^verbatim>\<open>bool\<close> included) compare by exact value, strings, lists and
  dicts structurally, and values of different kinds are unequal.
\<close>

fun float_eq :: "pyfloat \<Rightarrow> pyfloat \<Rightarrow> bool" where
  "float_eq (Infinite s) (Infinite t) = (s = t)"
| "float_eq (Finite s m e) (Finite t n f) =
     (m * 2 ^ nat (e - f) = n * 2 ^ nat (f - e) \<and> (s = t \<or> m = 0))"
| "float_eq _ _ = False"

fun num_val :: "json \<Rightarrow> pyfloat option" where
  "num_val (JBool b) = Some (Finite False (if b then 1 else 0) 0)"
| "num_val (JInt i) = Some (Finite (i < 0) (nat \<bar>i\<bar>) 0)"
| "num_val (JFloat f) = Some f"
| "num_val _ = None"

definition num_eq :: "pyfloat \<Rightarrow> json \<Rightarrow> bool" where
  "num_eq f y = (case num_val y of Some g \<Rightarrow> float_eq f g | None \<Rightarrow> False)"

primrec py_eq :: "json \<Rightarrow> json \<Rightarrow> bool" where
  "py_eq JNull y = (y = JNull)"
| "py_eq (JBool b) y = num_eq (Finite False (if b then 1 else 0) 0) y"
| "py_eq (JInt i) y = num_eq (Finite (i < 0) (nat \<bar>i\<bar>) 0) y"
| "py_eq (JFloat f) y = num_eq f y"
| "py_eq (JStr s) y = (y = JStr s)"
| "py_eq (JList xs) y =
     (case y of
        JList ys \<Rightarrow> length xs = length ys \<and> list_all (\<lambda>(p, y'). p y') (zip (map py_eq xs) ys)
      | _ \<Rightarrow> False)"
| "py_eq (JDict kvs) y =
     (case y of
        JDict kvs' \<Rightarrow>
          list_all (\<lambda>(k, p). case map_of kvs' k of Some y' \<Rightarrow> p y' | None \<Rightarrow> False)
            (map (map_prod id py_eq) kvs)
          \<and> list_all (\<lambda>(k, y'). k \<in> fst ` set kvs) kvs'
      | _ \<Rightarrow> False)"

text \<open>\<^verbatim>\<open>x in [a, b, ...]\<close> compares with \<^verbatim>\<open>==\<close>.\<close>

definition py_in :: "json \<Rightarrow> json list \<Rightarrow> bool" where
  "py_in x ys = list_ex (\<lambda>y. py_eq y x) ys"

subsection \<open>\<^verbatim>\<open>str\<close>, \<^verbatim>\<open>repr\<close> and \<^verbatim>\<open>str.join\<close>\<close>

definition int_str :: "int \<Rightarrow> string" where
  "int_str i = (if i < 0 then ''-'' else []) @ dec_digits (nat \<bar>i\<bar>)"

definition hex2 :: "nat \<Rightarrow> string" where
  "hex2 k = [''0123456789abcdef'' ! (k div 16), ''0123456789abcdef'' ! (k mod 16)]"

definition escape_char :: "char \<Rightarrow> char \<Rightarrow> string" where
  "escape_char q c =
     (if c = q \<or> c = CHR 0x5C then [CHR 0x5C, c]
      else if c = CHR 0x09 then [CHR 0x5C, CHR ''t'']
      else if c = CHR 0x0A then [CHR 0x5C, CHR ''n'']
      else if c = CHR 0x0D then [CHR 0x5C, CHR ''r'']
      else if (of_char c :: nat) < 32 \<or> (of_char c :: nat) = 127
        then [CHR 0x5C, CHR ''x''] @ hex2 (of_char c)
      else if (of_char c :: nat) < 127 then [c]
      else if (of_char c :: nat) \<le> 160 \<or> (of_char c :: nat) = 173
        then [CHR 0x5C, CHR ''x''] @ hex2 (of_char c)
      else [c])"

definition str_repr :: "string \<Rightarrow> string" where
  "str_repr s =
     (let q = (if CHR 0x27 \<in> set s \<and> CHR 0x22 \<notin> set s then CHR 0x22 else CHR 0x27)
      in [q] @ concat (map (escape_char q) s) @ [q])"

fun str_join :: "string \<Rightarrow> string list \<Rightarrow> string" where
  "str_join sep [] = []"
| "str_join sep [x] = x"
| "str_join sep (x # y # ys) = x @ sep @ str_join sep (y # ys)"

primrec py_repr :: "json \<Rightarrow> string" where
  "py_repr JNull = ''None''"
| "py_repr (JBool b) = (if b then ''True'' else ''False'')"
| "py_repr (JInt i) = int_str i"
| "py_repr (JFloat f) = float_repr f"
| "py_repr (JStr s) = str_repr s"
| "py_repr (JList xs) = ''['' @ str_join '', '' (map py_repr xs) @ '']''"
| "py_repr (JDict kvs) =
     ''{'' @ str_join '', '' (map (\<lambda>(k, r). str_repr k @ '': '' @ r) (map (map_prod id py_repr) kvs))
     @ ''}''"

fun py_str :: "json \<Rightarrow> string" where
  "py_str (JStr s) = s"
| "py_str v = py_repr v"

fun is_str :: "json \<Rightarrow> bool" where
  "is_str (JStr s) = True"
| "is_str _ = False"

fun str_of :: "json \<Rightarrow> string" where
  "str_of (JStr s) = s"
| "str_of _ = []"

text \<open>\<^verbatim>\<open>sep.join(items)\<close> raises \<^verbatim>\<open>TypeError\<close> unless every item is a string.\<close>

definition py_join :: "string \<Rightarrow> json list \<Rightarrow> py_error + json" where
  "py_join sep items =
     (if list_all is_str items then Inr (JStr (str_join sep (map str_of items)))
      else Inl TypeError)"

text \<open>\<^verbatim>\<open>field_value / 1000\<close>.\<close>

fun py_truediv_1000 :: "json \<Rightarrow> py_error + pyfloat" where
  "py_truediv_1000 (JInt i) = int_truediv_1000 i"
| "py_truediv_1000 (JBool b) = int_truediv_1000 (if b then 1 else 0)"
| "py_truediv_1000 (JFloat f) = Inr (float_truediv_1000 f)"
| "py_truediv_1000 _ = Inl TypeError"

section \<open>The field value normalizer \<^verbatim>\<open>_get_field_value\<close>\<close>

text \<open>\<^verbatim>\<open>field.get("type_config", {}).get("options", [])\<close>\<close>

definition field_options :: "json \<Rightarrow> py_error + json" where
  "field_options field =
     (case py_get field ''type_config'' (JDict []) of
        Inl e \<Rightarrow> Inl e
      | Inr type_config \<Rightarrow> py_get type_config ''options'' (JList []))"

text \<open>
  The \<^verbatim>\<open>dropdown\<close> loop: the first option whose \<^verbatim>\<open>id\<close> equals the value returns
  its \<^verbatim>\<open>name\<close>; \<open>None\<close> stands for falling out of the loop.
\<close>

fun find_option :: "json list \<Rightarrow> json \<Rightarrow> py_error + json option" where
  "find_option [] field_value = Inr None"
| "find_option (option # options) field_value =
     (case py_get option ''id'' JNull of
        Inl e \<Rightarrow> Inl e
      | Inr i \<Rightarrow>
          if py_eq i field_value then
            (case py_get option ''name'' (JStr []) of
               Inl e \<Rightarrow> Inl e
             | Inr n \<Rightarrow> Inr (Some n))
          else find_option options field_value)"

definition dropdown_value :: "json \<Rightarrow> json \<Rightarrow> py_error + json" where
  "dropdown_value field field_value =
     (case field_value of
        JStr s \<Rightarrow>
          (case field_options field of
             Inl e \<Rightarrow> Inl e
           | Inr options \<Rightarrow>
               (case py_iter options of
                  Inl e \<Rightarrow> Inl e
                | Inr opts \<Rightarrow>
                    (case find_option opts field_value of
                       Inl e \<Rightarrow> Inl e
                     | Inr (Some n) \<Rightarrow> Inr n
                     | Inr None \<Rightarrow> Inr field_value)))
      | JDict kvs \<Rightarrow> py_get field_value ''name'' (JStr [])
      | _ \<Rightarrow> Inr (JStr (py_str field_value)))"

text \<open>
  The \<^verbatim>\<open>labels\<close> / \<^verbatim>\<open>multi_select\<close> loops. The inner loop has no \<^verbatim>\<open>break\<close>: every
  option whose \<^verbatim>\<open>id\<close> equals the item appends its \<^verbatim>\<open>name\<close>.
\<close>

fun matching_names :: "json list \<Rightarrow> json \<Rightarrow> py_error + json list" where
  "matching_names [] item = Inr []"
| "matching_names (option # options) item =
     (case py_get option ''id'' JNull of
        Inl e \<Rightarrow> Inl e
      | Inr i \<Rightarrow>
          if py_eq i item then
            (case py_get option ''name'' (JStr []) of
               Inl e \<Rightarrow> Inl e
             | Inr n \<Rightarrow>
                 (case matching_names options item of
                    Inl e \<Rightarrow> Inl e
                  | Inr ns \<Rightarrow> Inr (n # ns)))
          else matching_names options item)"

fun has_name :: "json \<Rightarrow> bool" where
  "has_name (JDict kvs) = (map_of kvs ''name'' \<noteq> None)"
| "has_name _ = False"

definition item_names :: "json \<Rightarrow> json \<Rightarrow> py_error + json list" where
  "item_names options item =
     (if has_name item then
        (case py_get item ''name'' JNull of Inl e \<Rightarrow> Inl e | Inr n \<Rightarrow> Inr [n])
      else
        (case py_iter options of
           Inl e \<Rightarrow> Inl e
         | Inr opts \<Rightarrow> matching_names opts item))"

fun collect_names :: "json \<Rightarrow> json list \<Rightarrow> py_error + json list" where
  "collect_names options [] = Inr []"
| "collect_names options (item # items) =
     (case item_names options item of
        Inl e \<Rightarrow> Inl e
      | Inr ns \<Rightarrow>
          (case collect_names options items of
             Inl e \<Rightarrow> Inl e
           | Inr rest \<Rightarrow> Inr (ns @ rest)))"

definition labels_value :: "json \<Rightarrow> json \<Rightarrow> py_error + json" where
  "labels_value field field_value =
     (case field_value of
        JList items \<Rightarrow>
          (case field_options field of
             Inl e \<Rightarrow> Inl e
           | Inr options \<Rightarrow>
               (case collect_names options items of
                  Inl e \<Rightarrow> Inl e
                | Inr names \<Rightarrow> py_join '', '' names))
      | _ \<Rightarrow> Inr (JStr []))"

fun is_dict :: "json \<Rightarrow> bool" where
  "is_dict (JDict kvs) = True"
| "is_dict _ = False"

text \<open>\<^verbatim>\<open>d.get(key, "")\<close> on a value known to be a dict.\<close>

fun dict_get_or_empty :: "string \<Rightarrow> json \<Rightarrow> json" where
  "dict_get_or_empty key (JDict kvs) = (case map_of kvs key of Some v \<Rightarrow> v | None \<Rightarrow> JStr [])"
| "dict_get_or_empty key _ = JStr []"

text \<open>\<^verbatim>\<open>option.get("id")\<close> on a value known to be a dict.\<close>

fun option_id :: "json \<Rightarrow> json" where
  "option_id (JDict kvs) = (case map_of kvs ''id'' of Some v \<Rightarrow> v | None \<Rightarrow> JNull)"
| "option_id _ = JNull"

definition users_value :: "json \<Rightarrow> py_error + json" where
  "users_value field_value =
     (case field_value of
        JList users \<Rightarrow> py_join '', '' (map (dict_get_or_empty ''username'') (filter is_dict users))
      | _ \<Rightarrow> Inr (JStr []))"

text \<open>
  The \<^verbatim>\<open>relationship\<close> generator: entries are kept when truthy, and \<^verbatim>\<open>.get\<close> is
  called on each kept entry before \<^verbatim>\<open>join\<close> looks at the results.
\<close>

fun linked_names :: "json list \<Rightarrow> py_error + json list" where
  "linked_names [] = Inr []"
| "linked_names (linked_task # rest) =
     (if truthy linked_task then
        (case py_get linked_task ''name'' (JStr []) of
           Inl e \<Rightarrow> Inl e
         | Inr n \<Rightarrow>
             (case linked_names rest of
                Inl e \<Rightarrow> Inl e
              | Inr ns \<Rightarrow> Inr (n # ns)))
      else linked_names rest)"

definition relationship_value :: "json \<Rightarrow> py_error + json" where
  "relationship_value field_value =
     (case field_value of
        JList linked \<Rightarrow>
          (case linked_names linked of
             Inl e \<Rightarrow> Inl e
           | Inr names \<Rightarrow> py_join '', '' names)
      | _ \<Rightarrow> Inr (JStr []))"

definition date_value :: "json \<Rightarrow> py_error + json" where
  "date_value field_value =
     (case py_truediv_1000 field_value of
        Inl e \<Rightarrow> Inl e
      | Inr seconds \<Rightarrow> Inr (JStr (float_repr seconds)))"

definition object_member :: "string \<Rightarrow> json \<Rightarrow> py_error + json" where
  "object_member key field_value =
     (if is_dict field_value then py_get field_value key (JStr []) else Inr (JStr []))"

definition get_field_value :: "json \<Rightarrow> py_error + json" where
  "get_field_value field =
     (case py_get field ''name'' JNull of Inl e \<Rightarrow> Inl e | Inr field_name \<Rightarrow>
      case py_get field ''type'' JNull of Inl e \<Rightarrow> Inl e | Inr field_type \<Rightarrow>
      case py_get field ''value'' JNull of Inl e \<Rightarrow> Inl e | Inr field_value \<Rightarrow>
        if field_value = JNull then Inr (JStr [])
        else if py_in field_type
            [JStr ''text'', JStr ''short_text'', JStr ''email'', JStr ''phone'', JStr ''url'']
          then Inr (JStr (py_str field_value))
        else if py_in field_type [JStr ''number'', JStr ''rating'', JStr ''auto_increment'']
          then Inr (JStr (py_str field_value))
        else if py_eq field_type (JStr ''checkbox'')
          then Inr (JStr (if truthy field_value then ''Yes'' else ''No''))
        else if py_eq field_type (JStr ''dropdown'')
          then dropdown_value field field_value
        else if py_eq field_type (JStr ''labels'') \<or> py_eq field_type (JStr ''multi_select'')
          then labels_value field field_value
        else if py_eq field_type (JStr ''date'') \<or> py_eq field_type (JStr ''time'')
          then date_value field_value
        else if py_eq field_type (JStr ''users'')
          then users_value field_value
        else if py_eq field_type (JStr ''location'')
          then object_member ''name'' field_value
        else if py_eq field_type (JStr ''relationship'')
          then relationship_value field_value
        else if py_eq field_type (JStr ''formula'')
          then object_member ''text'' field_value
        else if py_in field_type [JStr ''created_by'', JStr ''updated_by'']
          then object_member ''username'' field_value
        else Inr (JStr (py_str field_value)))"

section \<open>The row builder \<^verbatim>\<open>_process_task\<close>\<close>

text \<open>
  \<^verbatim>\<open>custom_field_names\<close> and \<^verbatim>\<open>custom_field_values\<close> are Python dicts keyed by field
  names: association lists in insertion order. A key must be hashable (a list or a dict
  raises \<^verbatim>\<open>TypeError\<close>), keys are compared with \<^verbatim>\<open>==\<close>, and storing under a key
  that is present keeps the key's position.
\<close>

fun hashable :: "json \<Rightarrow> bool" where
  "hashable (JList xs) = False"
| "hashable (JDict kvs) = False"
| "hashable _ = True"

definition dict_contains :: "(json \<times> json) list \<Rightarrow> json \<Rightarrow> py_error + bool" where
  "dict_contains d k =
     (if hashable k then Inr (list_ex (\<lambda>kv. py_eq (fst kv) k) d) else Inl TypeError)"

definition dict_set :: "(json \<times> json) list \<Rightarrow> json \<Rightarrow> json \<Rightarrow> py_error + (json \<times> json) list" where
  "dict_set d k v =
     (if \<not> hashable k then Inl TypeError
      else if list_ex (\<lambda>kv. py_eq (fst kv) k) d
        then Inr (map (\<lambda>kv. if py_eq (fst kv) k then (fst kv, v) else kv) d)
      else Inr (d @ [(k, v)]))"

text \<open>\<^verbatim>\<open>{name: "" for name in custom_field_names.keys()}\<close>\<close>

fun blank_values :: "json list \<Rightarrow> (json \<times> json) list \<Rightarrow> py_error + (json \<times> json) list" where
  "blank_values [] d = Inr d"
| "blank_values (name # names) d =
     (case dict_set d name (JStr []) of
        Inl e \<Rightarrow> Inl e
      | Inr d' \<Rightarrow> blank_values names d')"

text \<open>The loop over \<^verbatim>\<open>task.get("custom_fields", [])\<close>.\<close>

fun fill_values :: "json list \<Rightarrow> (json \<times> json) list \<Rightarrow> py_error + (json \<times> json) list" where
  "fill_values [] custom_field_values = Inr custom_field_values"
| "fill_values (field # fields) custom_field_values =
     (case py_get field ''name'' JNull of Inl e \<Rightarrow> Inl e | Inr field_name \<Rightarrow>
      case dict_contains custom_field_values field_name of Inl e \<Rightarrow> Inl e | Inr present \<Rightarrow>
        if present then
          (case get_field_value field of Inl e \<Rightarrow> Inl e | Inr v \<Rightarrow>
           case dict_set custom_field_values field_name v of Inl e \<Rightarrow> Inl e | Inr d' \<Rightarrow>
             fill_values fields d')
        else fill_values fields custom_field_values)"

definition process_task :: "json \<Rightarrow> (json \<times> json) list \<Rightarrow> py_error + json list" where
  "process_task task custom_field_names =
     (case py_get task ''name'' (JStr []) of Inl e \<Rightarrow> Inl e | Inr name \<Rightarrow>
      case blank_values (map fst custom_field_names) [] of Inl e \<Rightarrow> Inl e | Inr blank \<Rightarrow>
      case py_get task ''custom_fields'' (JList []) of Inl e \<Rightarrow> Inl e | Inr custom_fields \<Rightarrow>
      case py_iter custom_fields of Inl e \<Rightarrow> Inl e | Inr fields \<Rightarrow>
      case fill_values fields blank of Inl e \<Rightarrow> Inl e | Inr custom_field_values \<Rightarrow>
        Inr (name # map snd custom_field_values))"

section \<open>The export \<^verbatim>\<open>export_to_excel\<close>\<close>

text \<open>
  \<^verbatim>\<open>_get_tasks_from_list\<close>: the HTTP exchange is a parameter giving, for a list id, either
  a failed request (any \<^verbatim>\<open>RequestException\<close>, caught and turned into \<^verbatim>\<open>[]\<close>) or the
  decoded body.
\<close>

datatype response = RequestFailed | Body json

definition get_tasks_from_list :: "(string \<Rightarrow> response) \<Rightarrow> string \<Rightarrow> py_error + json" where
  "get_tasks_from_list http list_id =
     (case http list_id of
        RequestFailed \<Rightarrow> Inr (JList [])
      | Body b \<Rightarrow> py_get b ''tasks'' (JList []))"

text \<open>
  Column discovery, the two nested loops of \<^verbatim>\<open>export_to_excel\<close> that fill
  \<^verbatim>\<open>custom_field_names\<close>.
\<close>

fun add_field_names :: "json list \<Rightarrow> (json \<times> json) list \<Rightarrow> py_error + (json \<times> json) list" where
  "add_field_names [] custom_field_names = Inr custom_field_names"
| "add_field_names (field # fields) custom_field_names =
     (case py_get field ''name'' JNull of Inl e \<Rightarrow> Inl e | Inr field_name \<Rightarrow>
      case dict_set custom_field_names field_name (JBool True) of Inl e \<Rightarrow> Inl e | Inr d' \<Rightarrow>
        add_field_names fields d')"

fun collect_field_names :: "json list \<Rightarrow> (json \<times> json) list \<Rightarrow> py_error + (json \<times> json) list" where
  "collect_field_names [] custom_field_names = Inr custom_field_names"
| "collect_field_names (task # tasks) custom_field_names =
     (case py_get task ''custom_fields'' (JList []) of Inl e \<Rightarrow> Inl e | Inr custom_fields \<Rightarrow>
      case py_iter custom_fields of Inl e \<Rightarrow> Inl e | Inr fields \<Rightarrow>
      case add_field_names fields custom_field_names of Inl e \<Rightarrow> Inl e | Inr d' \<Rightarrow>
        collect_field_names tasks d')"

text \<open>
  The workbook is the list of its sheets, each a title and the rows appended so far. The
  spreadsheet library is a parameter: \<open>sheet_title\<close> is the title a new sheet gets,
  given the titles present and the title asked for (or the error raised for a title it
  rejects); \<open>cell_value\<close> is what a cell stores for a value (or the error raised for a
  value it cannot store).
\<close>

record xl_library =
  sheet_title :: "string list \<Rightarrow> string \<Rightarrow> py_error + string"
  cell_value :: "json \<Rightarrow> py_error + json"

type_synonym sheet = "string \<times> json list list"

fun store_row :: "xl_library \<Rightarrow> json list \<Rightarrow> py_error + json list" where
  "store_row lib [] = Inr []"
| "store_row lib (v # vs) =
     (case cell_value lib v of Inl e \<Rightarrow> Inl e | Inr c \<Rightarrow>
      case store_row lib vs of Inl e \<Rightarrow> Inl e | Inr cs \<Rightarrow> Inr (c # cs))"

fun task_rows :: "xl_library \<Rightarrow> json list \<Rightarrow> (json \<times> json) list \<Rightarrow> py_error + json list list" where
  "task_rows lib [] custom_field_names = Inr []"
| "task_rows lib (task # tasks) custom_field_names =
     (case process_task task custom_field_names of Inl e \<Rightarrow> Inl e | Inr row_data \<Rightarrow>
      case store_row lib row_data of Inl e \<Rightarrow> Inl e | Inr row \<Rightarrow>
      case task_rows lib tasks custom_field_names of Inl e \<Rightarrow> Inl e | Inr rows \<Rightarrow>
        Inr (row # rows))"

text \<open>The body of the loop for a list that has tasks: the new sheet, added to the workbook.\<close>

definition export_list :: "xl_library \<Rightarrow> sheet list \<Rightarrow> string \<Rightarrow> json \<Rightarrow> py_error + sheet list" where
  "export_list lib workbook sheet_name tasks =
     (case sheet_title lib (map fst workbook) sheet_name of Inl e \<Rightarrow> Inl e | Inr title \<Rightarrow>
      case py_iter tasks of Inl e \<Rightarrow> Inl e | Inr ts \<Rightarrow>
      case collect_field_names ts [] of Inl e \<Rightarrow> Inl e | Inr custom_field_names \<Rightarrow>
      case store_row lib (JStr ''Task Name'' # map fst custom_field_names) of
        Inl e \<Rightarrow> Inl e | Inr headers \<Rightarrow>
      case task_rows lib ts custom_field_names of Inl e \<Rightarrow> Inl e | Inr rows \<Rightarrow>
        Inr (workbook @ [(title, headers # rows)]))"

fun export_lists ::
  "xl_library \<Rightarrow> (string \<Rightarrow> response) \<Rightarrow> (string \<times> string) list \<Rightarrow> sheet list \<Rightarrow> py_error + sheet list" where
  "export_lists lib http [] workbook = Inr workbook"
| "export_lists lib http ((sheet_name, list_id) # rest) workbook =
     (case get_tasks_from_list http list_id of Inl e \<Rightarrow> Inl e | Inr tasks \<Rightarrow>
        if \<not> truthy tasks then export_lists lib http rest workbook
        else
          (case export_list lib workbook sheet_name tasks of Inl e \<Rightarrow> Inl e | Inr workbook' \<Rightarrow>
             export_lists lib http rest workbook'))"

text \<open>\<^verbatim>\<open>del workbook["Sheet"]\<close> removes the first sheet with that title.\<close>

fun del_sheet :: "string \<Rightarrow> sheet list \<Rightarrow> sheet list" where
  "del_sheet title [] = []"
| "del_sheet title (s # ss) = (if fst s = title then ss else s # del_sheet title ss)"

definition remove_default :: "sheet list \<Rightarrow> sheet list" where
  "remove_default workbook =
     (if 1 < length workbook \<and> ''Sheet'' \<in> set (map fst workbook)
      then del_sheet ''Sheet'' workbook else workbook)"

text \<open>
  \<^verbatim>\<open>export_to_excel\<close> up to the call of \<^verbatim>\<open>workbook.save\<close>: \<open>Inr\<close> is the workbook
  handed to \<^verbatim>\<open>save\<close>, \<open>Inl\<close> the exception caught by the enclosing \<^verbatim>\<open>try\<close>, after
  which nothing is saved. A new \<^verbatim>\<open>Workbook()\<close> holds one empty sheet titled
  \<^verbatim>\<open>Sheet\<close>.
\<close>

definition export_to_excel ::
  "xl_library \<Rightarrow> (string \<Rightarrow> response) \<Rightarrow> (string \<times> string) list \<Rightarrow> py_error + sheet list" where
  "export_to_excel lib http list_ids =
     (case export_lists lib http list_ids [(''Sheet'', [])] of
        Inl e \<Rightarrow> Inl e
      | Inr workbook \<Rightarrow> Inr (remove_default workbook))"

section \<open>Evaluation and basic facts\<close>

lemmas float_eval = int_truediv_1000_def round_frac_def round_at_def round_exp_def
  round_half_even_def too_large_def normal_form_def dec_exponent_def candidate_def
  format_repr_def exp_digits_def rstrip_zeros_def
  bitlen.simps ndigits.simps dec_digits.simps strip_even.simps first_scale.simps
  shortest.simps zeros.simps float_repr.simps

lemma py_eq_str_right: "py_eq x (JStr s) = (x = JStr s)"
  by (cases x) (auto simp: num_eq_def)

lemma py_in_strs: "py_in (JStr t) (map JStr ts) = (t \<in> set ts)"
  by (induction ts) (auto simp: py_in_def)

lemma seconds_example:
  "int_truediv_1000 1700000000000 = Inr (Finite False 7130316800000000 (- 22))"
  by (simp add: float_eval)

lemma seconds_repr_example: "float_repr (Finite False 7130316800000000 (- 22)) = ''1700000000.0''"
  by (simp add: float_eval)

section \<open>The normalizer as a whole and checkboxes: claims C1 and C7\<close>

text \<open>
  C1 (the normalizer never raises and always returns a string). The code does raise: a
  \<^verbatim>\<open>date\<close> field whose value is a string reaches \<^verbatim>\<open>field_value / 1000\<close> and raises
  \<^verbatim>\<open>TypeError\<close>, and a \<^verbatim>\<open>relationship\<close> field whose list holds a non-empty string
  passes the truthiness filter and raises \<^verbatim>\<open>AttributeError\<close> at \<^verbatim>\<open>.get\<close>, where the
  \<^verbatim>\<open>users\<close> branch filters with \<^verbatim>\<open>isinstance(user, dict)\<close>.
\<close>

theorem get_field_value_raises:
  "get_field_value (JDict [(''name'', JStr ''Due''), (''type'', JStr ''date''),
                           (''value'', JStr ''1700000000000'')]) = Inl TypeError
   \<and> get_field_value (JDict [(''name'', JStr ''Links''), (''type'', JStr ''relationship''),
                             (''value'', JList [JStr ''abc''])]) = Inl AttributeError"
  by (simp add: get_field_value_def py_in_def date_value_def relationship_value_def)

text \<open>
  C7 as stated (a \<^verbatim>\<open>checkbox\<close> field gives \<^verbatim>\<open>"No"\<close> for every falsy raw value, a null one
  included) fails at the null value: the null check comes before the dispatch on the type
  and returns the empty string.
\<close>

theorem checkbox_null_counterexample:
  "get_field_value (JDict [(''name'', JStr ''Done''), (''type'', JStr ''checkbox''),
                           (''value'', JNull)])
   \<noteq> Inr (JStr (if truthy JNull then ''Yes'' else ''No''))"
  by (simp add: get_field_value_def)

text \<open>
  C7, amended: for every \<^verbatim>\<open>checkbox\<close> field, a null or absent value gives the empty
  string, and any other value gives \<^verbatim>\<open>"Yes"\<close> exactly when it is truthy and \<^verbatim>\<open>"No"\<close>
  otherwise.
\<close>

theorem checkbox_value:
  assumes "map_of kvs ''type'' = Some (JStr ''checkbox'')"
  shows "get_field_value (JDict kvs) =
           Inr (JStr (case map_of kvs ''value'' of
                        None \<Rightarrow> []
                      | Some v \<Rightarrow> if v = JNull then [] else if truthy v then ''Yes'' else ''No''))"
  using assms by (simp add: get_field_value_def py_in_def split: option.splits)

theorem checkbox_value_witness:
  "get_field_value (JDict [(''type'', JStr ''checkbox''), (''value'', JBool True)]) = Inr (JStr ''Yes'')
   \<and> get_field_value (JDict [(''type'', JStr ''checkbox''), (''value'', JInt 0)]) = Inr (JStr ''No'')"
  using checkbox_value [of "[(''type'', JStr ''checkbox''), (''value'', JBool True)]"]
        checkbox_value [of "[(''type'', JStr ''checkbox''), (''value'', JInt 0)]"]
  by simp

section \<open>Date and time fields: claim C8\<close>

lemma bitlen_le: "p < 2 ^ k \<Longrightarrow> bitlen p \<le> k"
proof (induction k arbitrary: p)
  case 0
  then show ?case by (simp add: bitlen.simps)
next
  case (Suc k)
  have "p div 2 < 2 ^ k" using Suc.prems by simp
  then have "bitlen (p div 2) \<le> k" by (rule Suc.IH)
  then show ?case by (subst bitlen.simps) simp
qed

lemma round_half_even_le: "round_half_even a d \<le> a div d + 1"
  by (simp add: round_half_even_def)

lemma round_exp_le: "round_exp p q \<le> int (bitlen p)"
  by (auto simp: round_exp_def Let_def max_def)

lemma not_too_large:
  assumes p: "p < 2 ^ 1000"
  shows "\<not> too_large (fst (round_frac p 1000)) (snd (round_frac p 1000))"
proof -
  define K :: nat where "K = 2 ^ 1000"
  define L :: nat where "L = 2 ^ 1024"
  define e where "e = round_exp p 1000"
  define X :: nat where "X = 2 ^ nat (- e)"
  define Y :: nat where "Y = 2 ^ nat e"
  define a where "a = p * X"
  define d where "d = 1000 * Y"
  define m where "m = round_half_even a d"
  have rf: "round_frac p 1000 = (m, e)"
    by (simp add: round_frac_def round_at_def m_def a_def d_def X_def Y_def e_def)
  have pK: "p < K" using p by (simp add: K_def)
  have "e \<le> int (bitlen p)" unfolding e_def by (rule round_exp_le)
  also have "\<dots> \<le> 1000" using bitlen_le [OF p] by simp
  finally have "nat e \<le> 1000" by simp
  then have "(2::nat) ^ nat e \<le> 2 ^ 1000" by (rule power_increasing) simp
  then have Y: "Y \<le> K" by (simp only: Y_def K_def)
  have X: "1 \<le> X" unfolding X_def by simp
  have "m \<le> a div d + 1" unfolding m_def by (rule round_half_even_le)
  then have "m * Y \<le> (a div d + 1) * Y" by (rule mult_le_mono1)
  also have "\<dots> = (a div d) * Y + Y" by (simp add: algebra_simps)
  also have "(a div d) * Y \<le> (a div d) * d" unfolding d_def by simp
  also have "(a div d) * d \<le> a" by simp
  finally have "m * Y \<le> a + Y" by simp
  moreover have "a \<le> K * X" unfolding a_def using pK by simp
  moreover have "Y \<le> K * X" using Y X
    by (metis mult.right_neutral mult_le_mono order_refl order_trans)
  ultimately have "m * Y \<le> (K + K) * X" by (simp add: add_mult_distrib)
  moreover have "(K + K) * X < L * X"
  proof -
    have "K + K < L" by (simp add: K_def L_def)
    moreover have "0 < X" using X by simp
    ultimately show ?thesis by (rule mult_less_mono1)
  qed
  ultimately have "m * Y < L * X" by (rule le_less_trans)
  then have "m * 2 ^ nat e < 2 ^ 1024 * 2 ^ nat (- e)" by (simp only: L_def X_def Y_def)
  then show ?thesis by (simp only: rf too_large_def fst_conv snd_conv not_le)
qed

lemma int_truediv_1000_defined:
  assumes "\<bar>n\<bar> < 2 ^ 1000"
  shows "\<exists>q. int_truediv_1000 n = Inr q"
proof (cases "n = 0")
  case True
  then show ?thesis by (simp add: int_truediv_1000_def)
next
  case False
  have "nat \<bar>n\<bar> < 2 ^ 1000" using assms by (simp add: nat_less_iff)
  from not_too_large [OF this] show ?thesis
    using False by (cases "round_frac (nat \<bar>n\<bar>) 1000") (simp add: int_truediv_1000_def)
qed

lemma get_field_value_date:
  assumes "map_of kvs ''type'' = Some (JStr t)" and "t = ''date'' \<or> t = ''time''"
    and "map_of kvs ''value'' = Some v" and "v \<noteq> JNull"
  shows "get_field_value (JDict kvs) = date_value v"
  using assms(2)
proof
  assume "t = ''date''"
  with assms show ?thesis by (simp add: get_field_value_def py_in_def)
next
  assume "t = ''time''"
  with assms show ?thesis by (simp add: get_field_value_def py_in_def)
qed

lemma round_half_even_close:
  assumes "0 < d"
  shows "2 * (round_half_even a d * d) \<le> 2 * a + d \<and> 2 * a \<le> 2 * (round_half_even a d * d) + d"
proof -
  define fl where "fl = a div d"
  define r where "r = a mod d"
  have a: "a = fl * d + r" by (simp add: fl_def r_def)
  have r: "r < d" using assms by (simp add: r_def)
  define R where "R = round_half_even a d"
  have rhe: "R =
      (if 2 * r < d then fl else if d < 2 * r then fl + 1 else if even fl then fl else fl + 1)"
    by (simp add: R_def round_half_even_def fl_def r_def)
  have "2 * (R * d) \<le> 2 * a + d \<and> 2 * a \<le> 2 * (R * d) + d"
    using r by (auto simp: rhe a algebra_simps)
  then show ?thesis by (simp only: R_def)
qed

lemma round_frac_close:
  assumes "0 < q" and "round_frac p q = (m, e)"
  shows "2 * (m * (q * 2 ^ nat e)) \<le> 2 * (p * 2 ^ nat (- e)) + q * 2 ^ nat e
       \<and> 2 * (p * 2 ^ nat (- e)) \<le> 2 * (m * (q * 2 ^ nat e)) + q * 2 ^ nat e"
proof -
  have m: "m = round_half_even (p * 2 ^ nat (- e)) (q * 2 ^ nat e)"
    using assms(2) by (auto simp: round_frac_def round_at_def)
  have "0 < q * 2 ^ nat e" using assms(1) by simp
  from round_half_even_close [OF this, of "p * 2 ^ nat (- e)"] show ?thesis
    unfolding m .
qed

lemma int_truediv_1000_close:
  assumes "int_truediv_1000 n = Inr (Finite s m e)"
  shows "s = (n < 0)
       \<and> 2 * (m * (1000 * 2 ^ nat e)) \<le> 2 * (nat \<bar>n\<bar> * 2 ^ nat (- e)) + 1000 * 2 ^ nat e
       \<and> 2 * (nat \<bar>n\<bar> * 2 ^ nat (- e)) \<le> 2 * (m * (1000 * 2 ^ nat e)) + 1000 * 2 ^ nat e"
proof (cases "n = 0")
  case True
  with assms show ?thesis by (simp add: int_truediv_1000_def)
next
  case False
  obtain m' e' where rf: "round_frac (nat \<bar>n\<bar>) 1000 = (m', e')"
    by (cases "round_frac (nat \<bar>n\<bar>) 1000")
  with assms False have "s = (n < 0)" and "m = m'" and "e = e'"
    by (auto simp: int_truediv_1000_def split: if_splits)
  with round_frac_close [of 1000 "nat \<bar>n\<bar>" m' e'] rf show ?thesis by simp
qed

lemma round_half_even_exact: "0 < d \<Longrightarrow> round_half_even (d * c) d = c"
  by (simp add: round_half_even_def)

lemma round_exp_nonpos:
  assumes "p < 1000 * 2 ^ 53"
  shows "round_exp p 1000 \<le> 0"
proof -
  have b: "bitlen 1000 = 10" by (simp add: bitlen.simps)
  have "p < 2 ^ 63" using assms by simp
  then have "bitlen p \<le> 63" by (rule bitlen_le)
  define e1 where "e1 = max (int (bitlen p) - int (bitlen 1000) - 53) (- 1074)"
  have e1: "e1 \<le> 0" using \<open>bitlen p \<le> 63\<close> by (simp add: e1_def b)
  have re: "round_exp p 1000 =
      (if 2 ^ 53 * (1000 * 2 ^ nat e1) \<le> p * 2 ^ nat (- e1) then e1 + 1 else e1)"
    by (simp only: round_exp_def Let_def e1_def)
  show ?thesis
  proof (cases "e1 = 0")
    case True
    then show ?thesis using assms by (simp add: re)
  next
    case False
    with e1 have "e1 < 0" by simp
    then show ?thesis by (simp add: re)
  qed
qed

lemma int_truediv_1000_exact:
  assumes "1000 dvd n" and "\<bar>n\<bar> < 1000 * 2 ^ 53"
  shows "\<exists>seconds. int_truediv_1000 n = Inr seconds
           \<and> float_eq seconds (Finite (n < 0) (nat \<bar>n div 1000\<bar>) 0)"
proof (cases "n = 0")
  case True
  then show ?thesis by (simp add: int_truediv_1000_def)
next
  case False
  define k where "k = nat \<bar>n div 1000\<bar>"
  define e where "e = round_exp (nat \<bar>n\<bar>) 1000"
  have p: "nat \<bar>n\<bar> = 1000 * k"
    using assms(1) by (auto simp: k_def elim!: dvdE simp: abs_mult nat_mult_distrib)
  have "nat \<bar>n\<bar> < 1000 * 2 ^ 53" using assms(2) by (simp add: nat_less_iff)
  then have e: "e \<le> 0" unfolding e_def by (rule round_exp_nonpos)
  have ne: "nat e = 0" using e by simp
  have "round_frac (nat \<bar>n\<bar>) 1000
      = (round_half_even (nat \<bar>n\<bar> * 2 ^ nat (- e)) (1000 * 2 ^ nat e), e)"
    by (simp only: round_frac_def round_at_def e_def)
  also have "round_half_even (nat \<bar>n\<bar> * 2 ^ nat (- e)) (1000 * 2 ^ nat e)
      = round_half_even (1000 * (k * 2 ^ nat (- e))) 1000"
    by (simp add: p ne mult.assoc)
  also have "\<dots> = k * 2 ^ nat (- e)" by (rule round_half_even_exact) simp
  finally have rf: "round_frac (nat \<bar>n\<bar>) 1000 = (k * 2 ^ nat (- e), e)" .
  have "\<bar>n\<bar> < 2 ^ 1000"
  proof -
    have "(1000 * 2 ^ 53 :: int) < 2 ^ 1000" by simp
    with assms(2) show ?thesis by (rule less_trans)
  qed
  then obtain seconds where s: "int_truediv_1000 n = Inr seconds"
    using int_truediv_1000_defined by blast
  then have "seconds = Finite (n < 0) (k * 2 ^ nat (- e)) e"
    using False by (simp add: int_truediv_1000_def rf split: if_splits)
  then show ?thesis using s e by (simp add: k_def)
qed

lemma float_truediv_1000_close:
  assumes "float_truediv_1000 (Finite s m e) = Finite s' m' e'" and "m' \<noteq> 0"
  shows "s' = s
       \<and> 2 * (m' * ((1000 * 2 ^ nat (- e)) * 2 ^ nat e'))
           \<le> 2 * ((m * 2 ^ nat e) * 2 ^ nat (- e')) + (1000 * 2 ^ nat (- e)) * 2 ^ nat e'
       \<and> 2 * ((m * 2 ^ nat e) * 2 ^ nat (- e'))
           \<le> 2 * (m' * ((1000 * 2 ^ nat (- e)) * 2 ^ nat e')) + (1000 * 2 ^ nat (- e)) * 2 ^ nat e'"
proof -
  obtain a b where rf: "round_frac (m * 2 ^ nat e) (1000 * 2 ^ nat (- e)) = (a, b)"
    by (cases "round_frac (m * 2 ^ nat e) (1000 * 2 ^ nat (- e))")
  from assms have "s' = s" and "m' = a" and "e' = b"
    by (auto simp: rf split: if_splits)
  moreover have "0 < (1000 * 2 ^ nat (- e) :: nat)" by simp
  ultimately show ?thesis using round_frac_close [OF _ rf] by simp
qed

lemma overflow_example: "int_truediv_1000 (10 ^ 400) = Inl OverflowError"
  by (simp add: float_eval)

lemma inexact_example:
  "map_sum id float_repr (int_truediv_1000 1700000000123) = Inr ''1700000000.123''"
  by (simp add: float_eval)

lemma float_example: "float_repr (float_truediv_1000 (Finite False 3 (- 1))) = ''0.0015''"
  by (simp add: float_eval)

lemma float_quotient_example:
  "float_truediv_1000 (Finite False 3 (- 1)) = Finite False 6917529027641082 (- 62)"
  by (simp add: float_eval)

text \<open>
  C8 as stated (for every number the result is the rendering of the value divided by 1000)
  fails for an \<^verbatim>\<open>int\<close> whose quotient is beyond the range of a double: the division
  \<^verbatim>\<open>10 ** 400 / 1000\<close> raises \<^verbatim>\<open>OverflowError\<close> and nothing is returned.
\<close>

theorem date_overflow_counterexample:
  "get_field_value (JDict [(''name'', JStr ''Due''), (''type'', JStr ''date''),
                           (''value'', JInt (10 ^ 400))]) = Inl OverflowError"
proof -
  have "get_field_value (JDict [(''name'', JStr ''Due''), (''type'', JStr ''date''),
                           (''value'', JInt (10 ^ 400))]) = date_value (JInt (10 ^ 400))"
    by (rule get_field_value_date [where t = "''date''"]) simp_all
  then show ?thesis
    by (simp only: date_value_def py_truediv_1000.simps overflow_example sum.case)
qed

text \<open>
  C8, amended: for a \<^verbatim>\<open>date\<close> or \<^verbatim>\<open>time\<close> field whose value is a number, the result is
  the float rendering of the value divided by 1000 and nothing else, whenever that quotient
  is within the range of a double. For an \<^verbatim>\<open>int\<close> \<open>n\<close> the division returns a double for
  every \<open>n\<close> below \<open>2\<^sup>1\<^sup>0\<^sup>0\<^sup>0\<close> in absolute value; the double \<open>\<plusminus> m * 2\<^sup>e\<close> it returns has the sign
  of \<open>n\<close> and differs from \<open>\<bar>n\<bar> / 1000\<close> by at most half of \<open>2\<^sup>e\<close>, and it is exactly
  \<open>n / 1000\<close> when \<open>n\<close> is a multiple of 1000 below \<open>1000 * 2\<^sup>5\<^sup>3\<close>. For a float the quotient
  keeps the sign and, unless it underflows to zero or the value is infinite, is within the
  same half unit of the exact quotient. The raw value \<open>1700000000000\<close> gives
  \<^verbatim>\<open>"1700000000.0"\<close>, \<open>1700000000123\<close> gives \<^verbatim>\<open>"1700000000.123"\<close>, and the float \<open>1.5\<close>
  gives \<^verbatim>\<open>"0.0015"\<close>.
\<close>

theorem date_value_quotient:
  assumes "map_of kvs ''type'' = Some (JStr t)" and "t = ''date'' \<or> t = ''time''"
  shows "(map_of kvs ''value'' = Some (JInt n) \<longrightarrow>
            get_field_value (JDict kvs) =
              (case int_truediv_1000 n of
                 Inl err \<Rightarrow> Inl err
               | Inr seconds \<Rightarrow> Inr (JStr (float_repr seconds))))
       \<and> (map_of kvs ''value'' = Some (JFloat f) \<longrightarrow>
            get_field_value (JDict kvs) = Inr (JStr (float_repr (float_truediv_1000 f))))
       \<and> (\<bar>n\<bar> < 2 ^ 1000 \<longrightarrow> (\<exists>seconds. int_truediv_1000 n = Inr seconds))
       \<and> (int_truediv_1000 n = Inr (Finite s m e) \<longrightarrow>
            s = (n < 0)
            \<and> 2 * (m * (1000 * 2 ^ nat e)) \<le> 2 * (nat \<bar>n\<bar> * 2 ^ nat (- e)) + 1000 * 2 ^ nat e
            \<and> 2 * (nat \<bar>n\<bar> * 2 ^ nat (- e)) \<le> 2 * (m * (1000 * 2 ^ nat e)) + 1000 * 2 ^ nat e)
       \<and> (1000 dvd n \<longrightarrow> \<bar>n\<bar> < 1000 * 2 ^ 53 \<longrightarrow>
            (\<exists>seconds. int_truediv_1000 n = Inr seconds
               \<and> float_eq seconds (Finite (n < 0) (nat \<bar>n div 1000\<bar>) 0)))
       \<and> (f = Finite fs fm fe \<longrightarrow> float_truediv_1000 f = Finite s' m' e' \<longrightarrow> m' \<noteq> 0 \<longrightarrow>
            s' = fs
            \<and> 2 * (m' * ((1000 * 2 ^ nat (- fe)) * 2 ^ nat e'))
                \<le> 2 * ((fm * 2 ^ nat fe) * 2 ^ nat (- e')) + (1000 * 2 ^ nat (- fe)) * 2 ^ nat e'
            \<and> 2 * ((fm * 2 ^ nat fe) * 2 ^ nat (- e'))
                \<le> 2 * (m' * ((1000 * 2 ^ nat (- fe)) * 2 ^ nat e'))
                    + (1000 * 2 ^ nat (- fe)) * 2 ^ nat e')
       \<and> get_field_value (JDict [(''name'', JStr ''Due''), (''type'', JStr ''date''),
                                  (''value'', JInt 1700000000000)])
            = Inr (JStr ''1700000000.0'')
       \<and> get_field_value (JDict [(''name'', JStr ''Due''), (''type'', JStr ''date''),
                                  (''value'', JInt 1700000000123)])
            = Inr (JStr ''1700000000.123'')
       \<and> get_field_value (JDict [(''name'', JStr ''Spent''), (''type'', JStr ''time''),
                                  (''value'', JFloat (Finite False 3 (- 1)))])
            = Inr (JStr ''0.0015'')"
proof (intro conjI impI)
  assume "map_of kvs ''value'' = Some (JInt n)"
  with assms have "get_field_value (JDict kvs) = date_value (JInt n)"
    by (intro get_field_value_date) simp_all
  then show "get_field_value (JDict kvs) =
      (case int_truediv_1000 n of Inl err \<Rightarrow> Inl err | Inr seconds \<Rightarrow> Inr (JStr (float_repr seconds)))"
    by (simp add: date_value_def)
next
  assume "map_of kvs ''value'' = Some (JFloat f)"
  with assms have "get_field_value (JDict kvs) = date_value (JFloat f)"
    by (intro get_field_value_date) simp_all
  then show "get_field_value (JDict kvs) = Inr (JStr (float_repr (float_truediv_1000 f)))"
    by (simp add: date_value_def)
next
  assume "\<bar>n\<bar> < 2 ^ 1000"
  then show "\<exists>seconds. int_truediv_1000 n = Inr seconds" by (rule int_truediv_1000_defined)
next
  assume q: "int_truediv_1000 n = Inr (Finite s m e)"
  from int_truediv_1000_close [OF q] show "s = (n < 0)" by simp
  from int_truediv_1000_close [OF q]
  show "2 * (m * (1000 * 2 ^ nat e)) \<le> 2 * (nat \<bar>n\<bar> * 2 ^ nat (- e)) + 1000 * 2 ^ nat e"
    by (rule conjunct1 [OF conjunct2])
  from int_truediv_1000_close [OF q]
  show "2 * (nat \<bar>n\<bar> * 2 ^ nat (- e)) \<le> 2 * (m * (1000 * 2 ^ nat e)) + 1000 * 2 ^ nat e"
    by (rule conjunct2 [OF conjunct2])
next
  assume "1000 dvd n" and "\<bar>n\<bar> < 1000 * 2 ^ 53"
  then show "\<exists>seconds. int_truediv_1000 n = Inr seconds
               \<and> float_eq seconds (Finite (n < 0) (nat \<bar>n div 1000\<bar>) 0)"
    by (rule int_truediv_1000_exact)
next
  assume f: "f = Finite fs fm fe" and q: "float_truediv_1000 f = Finite s' m' e'"
    and nz: "m' \<noteq> 0"
  note c = float_truediv_1000_close [OF q [unfolded f] nz]
  from c show "s' = fs" by simp
  from c show "2 * (m' * ((1000 * 2 ^ nat (- fe)) * 2 ^ nat e'))
                \<le> 2 * ((fm * 2 ^ nat fe) * 2 ^ nat (- e')) + (1000 * 2 ^ nat (- fe)) * 2 ^ nat e'"
    by (rule conjunct1 [OF conjunct2])
  from c show "2 * ((fm * 2 ^ nat fe) * 2 ^ nat (- e'))
                \<le> 2 * (m' * ((1000 * 2 ^ nat (- fe)) * 2 ^ nat e'))
                    + (1000 * 2 ^ nat (- fe)) * 2 ^ nat e'"
    by (rule conjunct2 [OF conjunct2])
next
  have "get_field_value (JDict [(''name'', JStr ''Due''), (''type'', JStr ''date''),
                                (''value'', JInt 1700000000000)]) = date_value (JInt 1700000000000)"
    by (rule get_field_value_date [where t = "''date''"]) simp_all
  then show "get_field_value (JDict [(''name'', JStr ''Due''), (''type'', JStr ''date''),
                                (''value'', JInt 1700000000000)]) = Inr (JStr ''1700000000.0'')"
    by (simp add: date_value_def seconds_example seconds_repr_example)
next
  have "get_field_value (JDict [(''name'', JStr ''Due''), (''type'', JStr ''date''),
                                (''value'', JInt 1700000000123)]) = date_value (JInt 1700000000123)"
    by (rule get_field_value_date [where t = "''date''"]) simp_all
  then show "get_field_value (JDict [(''name'', JStr ''Due''), (''type'', JStr ''date''),
                                (''value'', JInt 1700000000123)]) = Inr (JStr ''1700000000.123'')"
    using inexact_example by (cases "int_truediv_1000 1700000000123") (simp_all add: date_value_def)
next
  have "get_field_value (JDict [(''name'', JStr ''Spent''), (''type'', JStr ''time''),
            (''value'', JFloat (Finite False 3 (- 1)))]) = date_value (JFloat (Finite False 3 (- 1)))"
    by (rule get_field_value_date [where t = "''time''"]) simp_all
  then show "get_field_value (JDict [(''name'', JStr ''Spent''), (''type'', JStr ''time''),
            (''value'', JFloat (Finite False 3 (- 1)))]) = Inr (JStr ''0.0015'')"
    by (simp only: date_value_def py_truediv_1000.simps float_example sum.case)
qed

theorem date_value_quotient_witness:
  "get_field_value (JDict [(''type'', JStr ''time''), (''value'', JInt 1700000000000)])
     = Inr (JStr ''1700000000.0'')
   \<and> get_field_value (JDict [(''type'', JStr ''date''), (''value'', JFloat (Finite False 3 (- 1)))])
     = Inr (JStr ''0.0015'')
   \<and> (\<exists>seconds. int_truediv_1000 1700000000000 = Inr seconds
         \<and> float_eq seconds (Finite False 1700000000 0))"
proof -
  note i1 = date_value_quotient [of "[(''type'', JStr ''time''), (''value'', JInt 1700000000000)]"
      "''time''" 1700000000000 "Finite False 3 (- 1)" False 7130316800000000 "- 22"
      False 3 "- 1" False 6917529027641082 "- 62"]
  note i2 = date_value_quotient [of
      "[(''type'', JStr ''date''), (''value'', JFloat (Finite False 3 (- 1)))]"
      "''date''" 1700000000000 "Finite False 3 (- 1)" False 7130316800000000 "- 22"
      False 3 "- 1" False 6917529027641082 "- 62"]
  have a: "get_field_value (JDict [(''type'', JStr ''time''), (''value'', JInt 1700000000000)])
     = Inr (JStr ''1700000000.0'')"
    using i1 [THEN conjunct1] by (simp add: seconds_example seconds_repr_example)
  have b: "get_field_value (JDict [(''type'', JStr ''date''),
        (''value'', JFloat (Finite False 3 (- 1)))]) = Inr (JStr ''0.0015'')"
    using i2 [THEN conjunct2, THEN conjunct1]
    by (simp add: float_example del: float_truediv_1000.simps)
  have c: "\<exists>seconds. int_truediv_1000 1700000000000 = Inr seconds
         \<and> float_eq seconds (Finite False 1700000000 0)"
    using i1 [THEN conjunct2, THEN conjunct2, THEN conjunct2, THEN conjunct2, THEN conjunct1]
    by simp
  from a b c show ?thesis by (simp only: simp_thms)
qed

section \<open>Relationship fields: claim C9\<close>

lemma get_field_value_absent:
  assumes "map_of kvs ''value'' = None"
  shows "get_field_value (JDict kvs) = Inr (JStr '''')"
  by (simp add: get_field_value_def assms)

lemma get_field_value_null:
  assumes "map_of kvs ''value'' = Some JNull"
  shows "get_field_value (JDict kvs) = Inr (JStr '''')"
  by (simp add: get_field_value_def assms)

lemma get_field_value_relationship:
  assumes "map_of kvs ''type'' = Some (JStr ''relationship'')"
    and "map_of kvs ''value'' = Some v" and "v \<noteq> JNull"
  shows "get_field_value (JDict kvs) = relationship_value v"
  using assms by (simp add: get_field_value_def py_in_def)

lemma linked_names_objects:
  assumes "list_all (\<lambda>x. x = JNull \<or> is_dict x) items"
  shows "linked_names items =
           Inr (map (dict_get_or_empty ''name'') (filter (\<lambda>x. x \<noteq> JNull \<and> x \<noteq> JDict []) items))"
  using assms
proof (induction items)
  case Nil
  then show ?case by simp
next
  case (Cons x xs)
  then show ?case by (cases x) simp_all
qed

lemma py_join_strings:
  "list_all is_str xs \<Longrightarrow> py_join sep xs = Inr (JStr (str_join sep (map str_of xs)))"
  by (simp add: py_join_def)

lemma relationship_value_not_list:
  "(\<forall>xs. v \<noteq> JList xs) \<Longrightarrow> relationship_value v = Inr (JStr '''')"
  by (cases v) (simp_all add: relationship_value_def)

lemma relationship_value_nonempty_objects:
  assumes "map_of kvs ''type'' = Some (JStr ''relationship'')"
  shows "(map_of kvs ''value'' = Some (JList items) \<longrightarrow>
          list_all (\<lambda>x. x = JNull \<or>
                        (is_dict x \<and> x \<noteq> JDict [] \<and> is_str (dict_get_or_empty ''name'' x))) items \<longrightarrow>
            get_field_value (JDict kvs) =
              Inr (JStr (str_join '', ''
                (map (\<lambda>x. str_of (dict_get_or_empty ''name'' x))
                     (filter (\<lambda>x. x \<noteq> JNull) items)))))
       \<and> ((\<forall>xs. map_of kvs ''value'' \<noteq> Some (JList xs)) \<longrightarrow>
            get_field_value (JDict kvs) = Inr (JStr ''''))"
proof (intro conjI impI)
  assume v: "map_of kvs ''value'' = Some (JList items)"
    and wf: "list_all (\<lambda>x. x = JNull \<or>
                (is_dict x \<and> x \<noteq> JDict [] \<and> is_str (dict_get_or_empty ''name'' x))) items"
  let ?kept = "filter (\<lambda>x. x \<noteq> JNull) items"
  have same: "filter (\<lambda>x. x \<noteq> JNull \<and> x \<noteq> JDict []) items = ?kept"
    using wf by (intro filter_cong refl) (auto simp: list_all_iff)
  have "list_all (\<lambda>x. x = JNull \<or> is_dict x) items"
    using wf by (auto simp: list_all_iff)
  then have ln: "linked_names items = Inr (map (dict_get_or_empty ''name'') ?kept)"
    using linked_names_objects [of items] by (simp only: same)
  have "list_all is_str (map (dict_get_or_empty ''name'') ?kept)"
    using wf by (auto simp: list_all_iff)
  then have pj: "py_join '', '' (map (dict_get_or_empty ''name'') ?kept) =
      Inr (JStr (str_join '', '' (map str_of (map (dict_get_or_empty ''name'') ?kept))))"
    by (rule py_join_strings)
  have "get_field_value (JDict kvs) = relationship_value (JList items)"
    using assms v by (intro get_field_value_relationship) simp_all
  then show "get_field_value (JDict kvs) =
      Inr (JStr (str_join '', '' (map (\<lambda>x. str_of (dict_get_or_empty ''name'' x)) ?kept)))"
    using ln pj by (simp add: relationship_value_def comp_def)
next
  assume nl: "\<forall>xs. map_of kvs ''value'' \<noteq> Some (JList xs)"
  show "get_field_value (JDict kvs) = Inr (JStr '''')"
  proof (cases "map_of kvs ''value''")
    case None
    then show ?thesis by (rule get_field_value_absent)
  next
    case (Some v)
    show ?thesis
    proof (cases "v = JNull")
      case True
      with Some show ?thesis by (simp add: get_field_value_null)
    next
      case False
      with assms Some have "get_field_value (JDict kvs) = relationship_value v"
        by (intro get_field_value_relationship)
      moreover have "\<forall>xs. v \<noteq> JList xs" using nl Some by simp
      ultimately show ?thesis by (simp add: relationship_value_not_list)
    qed
  qed
qed

text \<open>
  C9 (a \<^verbatim>\<open>relationship\<close> field joins the name of every linked-task object, the empty
  string for an object without a name, and skips exactly the null entries). The code
  holds this for lists of nulls and non-empty objects (the lemma above) and for values
  that are not lists, but not for an empty object: the filter \<^verbatim>\<open>if linked_task\<close> tests
  truthiness, so \<^verbatim>\<open>{}\<close> is dropped and \<^verbatim>\<open>[{"name": "A"}, {}]\<close> gives \<^verbatim>\<open>"A"\<close> where
  the claim gives \<^verbatim>\<open>"A, "\<close>. The sibling \<^verbatim>\<open>users\<close> branch filters with
  \<^verbatim>\<open>isinstance(user, dict)\<close> and keeps the empty object as an empty name.
\<close>

theorem relationship_empty_object_dropped:
  "get_field_value (JDict [(''name'', JStr ''Links''), (''type'', JStr ''relationship''),
       (''value'', JList [JDict [(''name'', JStr ''A'')], JDict []])]) = Inr (JStr ''A'')
   \<and> get_field_value (JDict [(''name'', JStr ''Links''), (''type'', JStr ''relationship''),
       (''value'', JList [JDict [(''name'', JStr ''A'')], JDict []])])
     \<noteq> Inr (JStr (str_join '', '' [''A'', '''']))
   \<and> get_field_value (JDict [(''name'', JStr ''Owners''), (''type'', JStr ''users''),
       (''value'', JList [JDict [(''username'', JStr ''A'')], JDict []])]) = Inr (JStr ''A, '')"
  by (simp add: get_field_value_def py_in_def relationship_value_def users_value_def py_join_def)

section \<open>Dropdown fields: claim C5\<close>

lemma get_field_value_dropdown:
  assumes "map_of kvs ''type'' = Some (JStr ''dropdown'')"
    and "map_of kvs ''value'' = Some v" and "v \<noteq> JNull"
  shows "get_field_value (JDict kvs) = dropdown_value (JDict kvs) v"
  using assms by (simp add: get_field_value_def py_in_def)

lemma py_get_dict_name:
  "is_dict x \<Longrightarrow> py_get x ''name'' (JStr '''') = Inr (dict_get_or_empty ''name'' x)"
  by (cases x) simp_all

lemma py_get_dict_id: "is_dict x \<Longrightarrow> py_get x ''id'' JNull = Inr (option_id x)"
  by (cases x) simp_all

lemma find_option_dicts:
  assumes "list_all is_dict opts"
  shows "find_option opts (JStr s) =
           Inr (map_option (dict_get_or_empty ''name'') (find (\<lambda>opt. option_id opt = JStr s) opts))"
  using assms
  by (induction opts) (simp_all add: py_get_dict_id py_get_dict_name py_eq_str_right)

text \<open>
  C5: for a \<^verbatim>\<open>dropdown\<close> field with a non-null value (and options that are a list of
  objects): a string value gives the name of the first option whose \<^verbatim>\<open>id\<close> is that string
  and the string itself when no option matches; an object value gives its \<^verbatim>\<open>name\<close>;
  any other value is stringified. A missing \<^verbatim>\<open>name\<close> reads as the empty string.
\<close>

theorem dropdown_value_cases:
  assumes "map_of kvs ''type'' = Some (JStr ''dropdown'')"
    and "map_of kvs ''value'' = Some v" and "v \<noteq> JNull"
  shows "(v = JStr s \<longrightarrow> field_options (JDict kvs) = Inr (JList opts) \<longrightarrow> list_all is_dict opts \<longrightarrow>
            get_field_value (JDict kvs) =
              Inr (case find (\<lambda>opt. option_id opt = JStr s) opts of
                     Some opt \<Rightarrow> dict_get_or_empty ''name'' opt
                   | None \<Rightarrow> JStr s))
       \<and> (is_dict v \<longrightarrow> get_field_value (JDict kvs) = Inr (dict_get_or_empty ''name'' v))
       \<and> (\<not> is_str v \<longrightarrow> \<not> is_dict v \<longrightarrow> get_field_value (JDict kvs) = Inr (JStr (py_str v)))"
proof -
  have gfv: "get_field_value (JDict kvs) = dropdown_value (JDict kvs) v"
    using assms by (rule get_field_value_dropdown)
  show ?thesis
  proof (intro conjI impI)
    assume "v = JStr s" and "field_options (JDict kvs) = Inr (JList opts)"
      and "list_all is_dict opts"
    then show "get_field_value (JDict kvs) =
        Inr (case find (\<lambda>opt. option_id opt = JStr s) opts of
               Some opt \<Rightarrow> dict_get_or_empty ''name'' opt | None \<Rightarrow> JStr s)"
      by (simp add: gfv dropdown_value_def find_option_dicts split: option.splits)
  next
    assume "is_dict v"
    then show "get_field_value (JDict kvs) = Inr (dict_get_or_empty ''name'' v)"
      by (cases v) (simp_all add: gfv dropdown_value_def)
  next
    assume "\<not> is_str v" and "\<not> is_dict v"
    then show "get_field_value (JDict kvs) = Inr (JStr (py_str v))"
      by (cases v) (simp_all add: gfv dropdown_value_def)
  qed
qed

theorem dropdown_value_cases_witness:
  "get_field_value (JDict [(''name'', JStr ''Priority''), (''type'', JStr ''dropdown''),
      (''value'', JStr ''p2''),
      (''type_config'', JDict [(''options'', JList
          [JDict [(''id'', JStr ''p1''), (''name'', JStr ''Low'')],
           JDict [(''id'', JStr ''p2''), (''name'', JStr ''High'')],
           JDict [(''id'', JStr ''p2''), (''name'', JStr ''Other'')]])])])
     = Inr (JStr ''High'')
   \<and> get_field_value (JDict [(''type'', JStr ''dropdown''), (''value'', JStr ''p9''),
      (''type_config'', JDict [(''options'', JList
          [JDict [(''id'', JStr ''p1''), (''name'', JStr ''Low'')]])])])
     = Inr (JStr ''p9'')
   \<and> get_field_value (JDict [(''type'', JStr ''dropdown''),
        (''value'', JDict [(''name'', JStr ''Mid'')])]) = Inr (JStr ''Mid'')
   \<and> get_field_value (JDict [(''type'', JStr ''dropdown''), (''value'', JInt 3)])
     = Inr (JStr ''3'')"
  using
    dropdown_value_cases [of "[(''name'', JStr ''Priority''), (''type'', JStr ''dropdown''),
      (''value'', JStr ''p2''),
      (''type_config'', JDict [(''options'', JList
          [JDict [(''id'', JStr ''p1''), (''name'', JStr ''Low'')],
           JDict [(''id'', JStr ''p2''), (''name'', JStr ''High'')],
           JDict [(''id'', JStr ''p2''), (''name'', JStr ''Other'')]])])]"
      "JStr ''p2''" "''p2''"
      "[JDict [(''id'', JStr ''p1''), (''name'', JStr ''Low'')],
        JDict [(''id'', JStr ''p2''), (''name'', JStr ''High'')],
        JDict [(''id'', JStr ''p2''), (''name'', JStr ''Other'')]]"]
    dropdown_value_cases [of "[(''type'', JStr ''dropdown''), (''value'', JStr ''p9''),
      (''type_config'', JDict [(''options'', JList
          [JDict [(''id'', JStr ''p1''), (''name'', JStr ''Low'')]])])]"
      "JStr ''p9''" "''p9''" "[JDict [(''id'', JStr ''p1''), (''name'', JStr ''Low'')]]"]
    dropdown_value_cases [of "[(''type'', JStr ''dropdown''),
        (''value'', JDict [(''name'', JStr ''Mid'')])]" "JDict [(''name'', JStr ''Mid'')]" "[]" "[]"]
    dropdown_value_cases [of "[(''type'', JStr ''dropdown''), (''value'', JInt 3)]" "JInt 3" "[]" "[]"]
  by (simp add: field_options_def int_str_def dec_digits.simps)

section \<open>Label and multi-select fields: claim C6\<close>

lemma get_field_value_labels:
  assumes "map_of kvs ''type'' = Some (JStr t)" and "t = ''labels'' \<or> t = ''multi_select''"
    and "map_of kvs ''value'' = Some v" and "v \<noteq> JNull"
  shows "get_field_value (JDict kvs) = labels_value (JDict kvs) v"
  using assms(2)
proof
  assume "t = ''labels''"
  with assms show ?thesis by (simp add: get_field_value_def py_in_def)
next
  assume "t = ''multi_select''"
  with assms show ?thesis by (simp add: get_field_value_def py_in_def)
qed

lemma matching_names_dicts:
  assumes "list_all is_dict opts"
  shows "matching_names opts item =
           Inr (map (dict_get_or_empty ''name'') (filter (\<lambda>opt. py_eq (option_id opt) item) opts))"
  using assms
  by (induction opts) (simp_all add: py_get_dict_id py_get_dict_name)

lemma py_get_has_name:
  "has_name item \<Longrightarrow> py_get item ''name'' JNull = Inr (dict_get_or_empty ''name'' item)"
  by (cases item) auto

lemma item_names_dicts:
  assumes "list_all is_dict opts"
  shows "item_names (JList opts) item =
           Inr (if has_name item then [dict_get_or_empty ''name'' item]
                else map (dict_get_or_empty ''name'')
                       (filter (\<lambda>opt. py_eq (option_id opt) item) opts))"
  using assms by (simp add: item_names_def py_get_has_name matching_names_dicts)

lemma collect_names_dicts:
  assumes "list_all is_dict opts"
  shows "collect_names (JList opts) items =
           Inr (concat (map (\<lambda>item.
                  if has_name item then [dict_get_or_empty ''name'' item]
                  else map (dict_get_or_empty ''name'')
                         (filter (\<lambda>opt. py_eq (option_id opt) item) opts)) items))"
  by (induction items) (simp_all add: item_names_dicts [OF assms])

lemma str_of_names:
  "map str_of (concat (map (\<lambda>item.
       if has_name item then [dict_get_or_empty ''name'' item]
       else map (dict_get_or_empty ''name'') (filter (\<lambda>opt. py_eq (option_id opt) item) opts)) items))
   = concat (map (\<lambda>item.
       if has_name item then [str_of (dict_get_or_empty ''name'' item)]
       else map (\<lambda>opt. str_of (dict_get_or_empty ''name'' opt))
              (filter (\<lambda>opt. py_eq (option_id opt) item) opts)) items)"
  by (induction items) simp_all

text \<open>
  C6: for a \<^verbatim>\<open>labels\<close> or \<^verbatim>\<open>multi_select\<close> field whose value is a list (with options
  that are a list of objects, and names that are strings), the result joins with
  \<^verbatim>\<open>", "\<close>, in the order of the items, what each item contributes: an object carrying
  \<^verbatim>\<open>name\<close> contributes that name; any other item contributes the name of every option
  whose \<^verbatim>\<open>id\<close> equals it, in option order, hence exactly one name when one option
  matches and nothing when none does. Two resolvable identifiers around a named object give
  the three names in the original order.
\<close>

theorem labels_value_names:
  assumes "map_of kvs ''type'' = Some (JStr t)" and "t = ''labels'' \<or> t = ''multi_select''"
    and "map_of kvs ''value'' = Some (JList items)"
    and "field_options (JDict kvs) = Inr (JList opts)" and "list_all is_dict opts"
    and "list_all (\<lambda>opt. is_str (dict_get_or_empty ''name'' opt)) opts"
    and "list_all (\<lambda>item. is_str (dict_get_or_empty ''name'' item)) items"
  shows "get_field_value (JDict kvs) =
           Inr (JStr (str_join '', '' (concat (map (\<lambda>item.
             if has_name item then [str_of (dict_get_or_empty ''name'' item)]
             else map (\<lambda>opt. str_of (dict_get_or_empty ''name'' opt))
                    (filter (\<lambda>opt. py_eq (option_id opt) item) opts)) items))))
         \<and> get_field_value (JDict [(''name'', JStr ''Tags''), (''type'', JStr ''multi_select''),
               (''value'', JList [JStr ''b'', JDict [(''name'', JStr ''Blue'')], JStr ''a'']),
               (''type_config'', JDict [(''options'', JList
                   [JDict [(''id'', JStr ''a''), (''name'', JStr ''Red'')],
                    JDict [(''id'', JStr ''b''), (''name'', JStr ''Green'')]])])])
             = Inr (JStr ''Green, Blue, Red'')"
proof
  let ?names = "concat (map (\<lambda>item.
       if has_name item then [dict_get_or_empty ''name'' item]
       else map (dict_get_or_empty ''name'') (filter (\<lambda>opt. py_eq (option_id opt) item) opts)) items)"
  have gfv: "get_field_value (JDict kvs) = labels_value (JDict kvs) (JList items)"
    using assms(1-3) by (intro get_field_value_labels) simp_all
  have cn: "collect_names (JList opts) items = Inr ?names"
    using assms(5) by (rule collect_names_dicts)
  have "list_all is_str ?names"
    using assms(6,7) by (auto simp: list_all_iff split: if_splits)
  then have "py_join '', '' ?names = Inr (JStr (str_join '', '' (map str_of ?names)))"
    by (rule py_join_strings)
  then show "get_field_value (JDict kvs) =
           Inr (JStr (str_join '', '' (concat (map (\<lambda>item.
             if has_name item then [str_of (dict_get_or_empty ''name'' item)]
             else map (\<lambda>opt. str_of (dict_get_or_empty ''name'' opt))
                    (filter (\<lambda>opt. py_eq (option_id opt) item) opts)) items))))"
    using assms(4) cn by (simp add: gfv labels_value_def str_of_names)
next
  show "get_field_value (JDict [(''name'', JStr ''Tags''), (''type'', JStr ''multi_select''),
               (''value'', JList [JStr ''b'', JDict [(''name'', JStr ''Blue'')], JStr ''a'']),
               (''type_config'', JDict [(''options'', JList
                   [JDict [(''id'', JStr ''a''), (''name'', JStr ''Red'')],
                    JDict [(''id'', JStr ''b''), (''name'', JStr ''Green'')]])])])
             = Inr (JStr ''Green, Blue, Red'')"
    by (simp add: get_field_value_def py_in_def labels_value_def field_options_def
          item_names_def py_join_def)
qed

theorem labels_value_names_witness:
  "get_field_value (JDict [(''type'', JStr ''labels''),
       (''value'', JList [JStr ''x'', JStr ''zz'', JDict [(''name'', JStr ''Own'')], JStr ''y'']),
       (''type_config'', JDict [(''options'', JList
           [JDict [(''id'', JStr ''y''), (''name'', JStr ''Why'')],
            JDict [(''id'', JStr ''x''), (''name'', JStr ''Ex'')]])])])
     = Inr (JStr ''Ex, Own, Why'')"
  using labels_value_names [of "[(''type'', JStr ''labels''),
       (''value'', JList [JStr ''x'', JStr ''zz'', JDict [(''name'', JStr ''Own'')], JStr ''y'']),
       (''type_config'', JDict [(''options'', JList
           [JDict [(''id'', JStr ''y''), (''name'', JStr ''Why'')],
            JDict [(''id'', JStr ''x''), (''name'', JStr ''Ex'')]])])]"
      "''labels''"
      "[JStr ''x'', JStr ''zz'', JDict [(''name'', JStr ''Own'')], JStr ''y'']"
      "[JDict [(''id'', JStr ''y''), (''name'', JStr ''Why'')],
        JDict [(''id'', JStr ''x''), (''name'', JStr ''Ex'')]]"]
  by (simp add: field_options_def)

section \<open>Column discovery: claim C3\<close>

lemma dict_set_str_key:
  assumes "map fst d = map JStr ks"
  shows "\<exists>d'. dict_set d (JStr n) v = Inr d' \<and>
              map fst d' = map JStr (if n \<in> set ks then ks else ks @ [n])"
proof -
  have ex: "list_ex (\<lambda>kv. py_eq (fst kv) (JStr n)) d = (n \<in> set ks)"
  proof -
    have "list_ex (\<lambda>kv. py_eq (fst kv) (JStr n)) d = (JStr n \<in> set (map fst d))"
      by (induction d) (auto simp: py_eq_str_right)
    then show ?thesis by (auto simp: assms)
  qed
  have "map fst (map (\<lambda>kv. if py_eq (fst kv) (JStr n) then (fst kv, v) else kv) d) = map fst d"
    by (induction d) simp_all
  then show ?thesis using assms ex by (simp add: dict_set_def)
qed

lemma add_field_names_strs:
  assumes "list_all2 (\<lambda>f n. py_get f ''name'' JNull = Inr (JStr n)) fs ns"
    and "map fst d = map JStr ks"
  shows "\<exists>d'. add_field_names fs d = Inr d' \<and>
              map fst d' = map JStr (rev (fold List.insert ns (rev ks)))"
  using assms
proof (induction fs ns arbitrary: d ks rule: list_all2_induct)
  case Nil
  then show ?case by simp
next
  case (Cons f fs n ns)
  from dict_set_str_key [OF Cons.prems, of n "JBool True"]
  obtain d1 where d1: "dict_set d (JStr n) (JBool True) = Inr d1"
    and k1: "map fst d1 = map JStr (if n \<in> set ks then ks else ks @ [n])" by blast
  have "rev (if n \<in> set ks then ks else ks @ [n]) = List.insert n (rev ks)"
    by (simp add: List.insert_def)
  with Cons.IH [OF k1] Cons.hyps(1) d1 show ?case by simp
qed

lemma collect_field_names_strs:
  assumes "list_all2 (\<lambda>task ns. \<exists>fs. py_get task ''custom_fields'' (JList []) = Inr (JList fs)
              \<and> list_all2 (\<lambda>f n. py_get f ''name'' JNull = Inr (JStr n)) fs ns) tasks nss"
    and "map fst d = map JStr ks"
  shows "\<exists>d'. collect_field_names tasks d = Inr d' \<and>
              map fst d' = map JStr (rev (fold List.insert (concat nss) (rev ks)))"
  using assms
proof (induction tasks nss arbitrary: d ks rule: list_all2_induct)
  case Nil
  then show ?case by simp
next
  case (Cons task tasks ns nss)
  from Cons.hyps(1) obtain fs where cf: "py_get task ''custom_fields'' (JList []) = Inr (JList fs)"
    and names: "list_all2 (\<lambda>f n. py_get f ''name'' JNull = Inr (JStr n)) fs ns" by blast
  from add_field_names_strs [OF names Cons.prems]
  obtain d1 where d1: "add_field_names fs d = Inr d1"
    and k1: "map fst d1 = map JStr (rev (fold List.insert ns (rev ks)))" by blast
  from Cons.IH [OF k1] cf d1 show ?case by simp
qed

lemma fold_insert_remdups: "fold List.insert xs [] = remdups (rev xs)"
  by (induction xs rule: rev_induct) (simp_all add: List.insert_def)

text \<open>
  C3: over tasks whose custom fields carry string names, column discovery succeeds and its
  keys are the names of all fields of all tasks, in task order and field order, each kept
  at its first occurrence only (\<open>rev (remdups (rev xs))\<close> drops every later repetition): a
  duplicate-free list with the same elements as the union of the names. Two tasks with
  fields \<open>A, B\<close> and \<open>B, C\<close> give the columns \<open>A, B, C\<close>.
\<close>

theorem column_discovery_first_seen:
  assumes "list_all2 (\<lambda>task ns. \<exists>fs. py_get task ''custom_fields'' (JList []) = Inr (JList fs)
              \<and> list_all2 (\<lambda>f n. py_get f ''name'' JNull = Inr (JStr n)) fs ns) tasks nss"
  shows "map_sum id (map fst) (collect_field_names tasks [])
           = Inr (map JStr (rev (remdups (rev (concat nss)))))
       \<and> distinct (rev (remdups (rev (concat nss))))
       \<and> set (rev (remdups (rev (concat nss)))) = set (concat nss)
       \<and> map_sum id (map fst) (collect_field_names
             [JDict [(''name'', JStr ''t1''), (''custom_fields'', JList
                 [JDict [(''name'', JStr ''A'')], JDict [(''name'', JStr ''B'')]])],
              JDict [(''name'', JStr ''t2''), (''custom_fields'', JList
                 [JDict [(''name'', JStr ''B'')], JDict [(''name'', JStr ''C'')]])]] [])
           = Inr [JStr ''A'', JStr ''B'', JStr ''C'']"
proof (intro conjI)
  from collect_field_names_strs [OF assms, of "[]" "[]"]
  obtain d' where "collect_field_names tasks [] = Inr d'"
    and "map fst d' = map JStr (rev (fold List.insert (concat nss) []))" by auto
  then show "map_sum id (map fst) (collect_field_names tasks [])
           = Inr (map JStr (rev (remdups (rev (concat nss)))))"
    by (simp add: fold_insert_remdups)
next
  show "distinct (rev (remdups (rev (concat nss))))" by simp
next
  show "set (rev (remdups (rev (concat nss)))) = set (concat nss)" by simp
next
  show "map_sum id (map fst) (collect_field_names
             [JDict [(''name'', JStr ''t1''), (''custom_fields'', JList
                 [JDict [(''name'', JStr ''A'')], JDict [(''name'', JStr ''B'')]])],
              JDict [(''name'', JStr ''t2''), (''custom_fields'', JList
                 [JDict [(''name'', JStr ''B'')], JDict [(''name'', JStr ''C'')]])]] [])
           = Inr [JStr ''A'', JStr ''B'', JStr ''C'']"
    by (simp add: dict_set_def)
qed

theorem column_discovery_first_seen_witness:
  "map_sum id (map fst) (collect_field_names
       [JDict [(''custom_fields'', JList
           [JDict [(''name'', JStr ''A'')], JDict [(''name'', JStr ''B'')]])],
        JDict [(''name'', JStr ''no fields'')],
        JDict [(''custom_fields'', JList
           [JDict [(''name'', JStr ''B'')], JDict [(''name'', JStr ''C'')],
            JDict [(''name'', JStr ''A'')]])]] [])
     = Inr [JStr ''A'', JStr ''B'', JStr ''C'']"
  using column_discovery_first_seen [of
       "[JDict [(''custom_fields'', JList
           [JDict [(''name'', JStr ''A'')], JDict [(''name'', JStr ''B'')]])],
        JDict [(''name'', JStr ''no fields'')],
        JDict [(''custom_fields'', JList
           [JDict [(''name'', JStr ''B'')], JDict [(''name'', JStr ''C'')],
            JDict [(''name'', JStr ''A'')]])]]"
       "[[''A'', ''B''], [], [''B'', ''C'', ''A'']]"]
  by simp

section \<open>The row builder: claim C4\<close>

lemma list_ex_str_key:
  "list_ex (\<lambda>kv. py_eq (fst kv) (JStr n)) (map (\<lambda>c. (JStr c, val c)) cs) = (n \<in> set cs)"
  by (induction cs) (auto simp: py_eq_str_right)

lemma list_ex_str_key_eq:
  "list_ex (\<lambda>kv. fst kv = JStr n) (map (\<lambda>c. (JStr c, val c)) cs) = (n \<in> set cs)"
  by (induction cs) auto

lemma dict_contains_strs:
  "dict_contains (map (\<lambda>c. (JStr c, val c)) cs) (JStr n) = Inr (n \<in> set cs)"
  by (simp add: dict_contains_def list_ex_str_key)

lemma dict_set_present:
  assumes "n \<in> set cs"
  shows "dict_set (map (\<lambda>c. (JStr c, val c)) cs) (JStr n) v
           = Inr (map (\<lambda>c. (JStr c, (val(n := v)) c)) cs)"
  using assms by (simp add: dict_set_def list_ex_str_key_eq py_eq_str_right)

lemma dict_set_new:
  assumes "n \<notin> set cs"
  shows "dict_set (map (\<lambda>c. (JStr c, val c)) cs) (JStr n) v
           = Inr (map (\<lambda>c. (JStr c, val c)) cs @ [(JStr n, v)])"
  using assms by (simp add: dict_set_def list_ex_str_key)

lemma blank_values_strs:
  assumes "distinct cs" and "set ks \<inter> set cs = {}"
  shows "blank_values (map JStr cs) (map (\<lambda>c. (JStr c, JStr '''')) ks)
           = Inr (map (\<lambda>c. (JStr c, JStr '''')) (ks @ cs))"
  using assms
proof (induction cs arbitrary: ks)
  case Nil
  then show ?case by simp
next
  case (Cons c cs)
  have "c \<notin> set ks" using Cons.prems by auto
  then have "dict_set (map (\<lambda>c. (JStr c, JStr '''')) ks) (JStr c) (JStr '''')
      = Inr (map (\<lambda>c. (JStr c, JStr '''')) (ks @ [c]))"
    by (simp add: dict_set_new)
  moreover have "blank_values (map JStr cs) (map (\<lambda>c. (JStr c, JStr '''')) (ks @ [c]))
      = Inr (map (\<lambda>c. (JStr c, JStr '''')) ((ks @ [c]) @ cs))"
    using Cons.prems by (intro Cons.IH) auto
  ultimately show ?case by simp
qed

lemma fill_values_strs:
  assumes "\<forall>f\<in>set fs. \<exists>n. py_get f ''name'' JNull = Inr (JStr n)"
    and "\<forall>f\<in>set fs. (\<exists>c\<in>set cs. py_get f ''name'' JNull = Inr (JStr c))
            \<longrightarrow> (\<exists>v. get_field_value f = Inr v)"
  shows "fill_values fs (map (\<lambda>c. (JStr c, val c)) cs)
           = Inr (map (\<lambda>c. (JStr c,
                    case filter (\<lambda>f. py_get f ''name'' JNull = Inr (JStr c)) fs of
                      [] \<Rightarrow> val c
                    | ms \<Rightarrow> projr (get_field_value (last ms)))) cs)"
  using assms
proof (induction fs arbitrary: val)
  case Nil
  then show ?case by simp
next
  case (Cons f fs)
  from Cons.prems(1) obtain n where n: "py_get f ''name'' JNull = Inr (JStr n)" by auto
  have p1: "\<forall>f\<in>set fs. \<exists>n. py_get f ''name'' JNull = Inr (JStr n)"
    using Cons.prems(1) by simp
  have p2: "\<forall>f\<in>set fs. (\<exists>c\<in>set cs. py_get f ''name'' JNull = Inr (JStr c))
            \<longrightarrow> (\<exists>v. get_field_value f = Inr v)"
    using Cons.prems(2) by simp
  show ?case
  proof (cases "n \<in> set cs")
    case True
    with Cons.prems(2) n obtain v where v: "get_field_value f = Inr v" by auto
    have step: "fill_values (f # fs) (map (\<lambda>c. (JStr c, val c)) cs)
        = fill_values fs (map (\<lambda>c. (JStr c, (val(n := v)) c)) cs)"
      using True by (simp add: n v dict_contains_strs dict_set_present)
    have eq: "(case filter (\<lambda>f. py_get f ''name'' JNull = Inr (JStr c)) fs of
                [] \<Rightarrow> (val(n := v)) c | ms \<Rightarrow> projr (get_field_value (last ms)))
        = (case filter (\<lambda>f. py_get f ''name'' JNull = Inr (JStr c)) (f # fs) of
                [] \<Rightarrow> val c | ms \<Rightarrow> projr (get_field_value (last ms)))" for c
      by (cases "c = n") (auto simp: n v split: list.splits)
    have "fill_values fs (map (\<lambda>c. (JStr c, (val(n := v)) c)) cs)
        = Inr (map (\<lambda>c. (JStr c,
                 case filter (\<lambda>f. py_get f ''name'' JNull = Inr (JStr c)) (f # fs) of
                   [] \<Rightarrow> val c | ms \<Rightarrow> projr (get_field_value (last ms)))) cs)"
      using Cons.IH [OF p1 p2, of "val(n := v)"] by (simp only: eq)
    with step show ?thesis by (simp only:)
  next
    case False
    have step: "fill_values (f # fs) (map (\<lambda>c. (JStr c, val c)) cs)
        = fill_values fs (map (\<lambda>c. (JStr c, val c)) cs)"
      using False by (simp add: n dict_contains_strs)
    have "map (\<lambda>c. (JStr c, case filter (\<lambda>f. py_get f ''name'' JNull = Inr (JStr c)) fs of
                [] \<Rightarrow> val c | ms \<Rightarrow> projr (get_field_value (last ms)))) cs
        = map (\<lambda>c. (JStr c, case filter (\<lambda>f. py_get f ''name'' JNull = Inr (JStr c)) (f # fs) of
                [] \<Rightarrow> val c | ms \<Rightarrow> projr (get_field_value (last ms)))) cs"
      using False by (intro map_cong refl) (auto simp: n)
    then have "fill_values fs (map (\<lambda>c. (JStr c, val c)) cs)
        = Inr (map (\<lambda>c. (JStr c,
                 case filter (\<lambda>f. py_get f ''name'' JNull = Inr (JStr c)) (f # fs) of
                   [] \<Rightarrow> val c | ms \<Rightarrow> projr (get_field_value (last ms)))) cs)"
      using Cons.IH [OF p1 p2, of val] by (simp only:)
    with step show ?thesis by (simp only:)
  qed
qed

lemma py_get_is_dict: "py_get x k d = Inr y \<Longrightarrow> is_dict x"
  by (cases x) simp_all

text \<open>
  C4: for a task whose custom fields carry string names and a column set of distinct
  string names, the row is the task's name followed by one value per column, in column
  order: the normalized value of the last field of the task with that name, and the empty
  string when the task has no such field. Fields whose name is not a column are not
  normalized at all, so they cannot affect the row (nor make it fail); the fields that are
  normalized are assumed to normalize without an exception.
\<close>

theorem process_task_row:
  assumes "py_get task ''custom_fields'' (JList []) = Inr (JList fs)"
    and "map fst custom_field_names = map JStr cs" and "distinct cs"
    and "\<forall>f\<in>set fs. \<exists>n. py_get f ''name'' JNull = Inr (JStr n)"
    and "\<forall>f\<in>set fs. (\<exists>c\<in>set cs. py_get f ''name'' JNull = Inr (JStr c))
            \<longrightarrow> (\<exists>v. get_field_value f = Inr v)"
  shows "process_task task custom_field_names =
           Inr (dict_get_or_empty ''name'' task #
                map (\<lambda>c. case filter (\<lambda>f. py_get f ''name'' JNull = Inr (JStr c)) fs of
                            [] \<Rightarrow> JStr ''''
                          | ms \<Rightarrow> projr (get_field_value (last ms))) cs)"
proof -
  have "is_dict task" using assms(1) by (rule py_get_is_dict)
  then have nm: "py_get task ''name'' (JStr '''') = Inr (dict_get_or_empty ''name'' task)"
    by (rule py_get_dict_name)
  have bl: "blank_values (map fst custom_field_names) [] = Inr (map (\<lambda>c. (JStr c, JStr '''')) cs)"
    using blank_values_strs [OF assms(3), of "[]"] by (simp add: assms(2))
  have fv: "fill_values fs (map (\<lambda>c. (JStr c, JStr '''')) cs)
      = Inr (map (\<lambda>c. (JStr c,
               case filter (\<lambda>f. py_get f ''name'' JNull = Inr (JStr c)) fs of
                 [] \<Rightarrow> JStr ''''
               | ms \<Rightarrow> projr (get_field_value (last ms)))) cs)"
    using assms(4,5) by (rule fill_values_strs)
  show ?thesis
    by (simp add: process_task_def nm bl assms(1) fv comp_def)
qed

theorem process_task_row_witness:
  "process_task
     (JDict [(''name'', JStr ''T1''), (''custom_fields'', JList
        [JDict [(''name'', JStr ''A''), (''type'', JStr ''text''), (''value'', JStr ''x'')],
         JDict [(''name'', JStr ''B''), (''type'', JStr ''checkbox''), (''value'', JBool True)],
         JDict [(''name'', JStr ''A''), (''type'', JStr ''text''), (''value'', JStr ''y'')],
         JDict [(''name'', JStr ''Z''), (''type'', JStr ''date''), (''value'', JStr ''bad'')]])])
     [(JStr ''A'', JBool True), (JStr ''B'', JBool True), (JStr ''C'', JBool True)]
   = Inr [JStr ''T1'', JStr ''y'', JStr ''Yes'', JStr '''']"
  using process_task_row [of
     "JDict [(''name'', JStr ''T1''), (''custom_fields'', JList
        [JDict [(''name'', JStr ''A''), (''type'', JStr ''text''), (''value'', JStr ''x'')],
         JDict [(''name'', JStr ''B''), (''type'', JStr ''checkbox''), (''value'', JBool True)],
         JDict [(''name'', JStr ''A''), (''type'', JStr ''text''), (''value'', JStr ''y'')],
         JDict [(''name'', JStr ''Z''), (''type'', JStr ''date''), (''value'', JStr ''bad'')]])]"
     "[JDict [(''name'', JStr ''A''), (''type'', JStr ''text''), (''value'', JStr ''x'')],
       JDict [(''name'', JStr ''B''), (''type'', JStr ''checkbox''), (''value'', JBool True)],
       JDict [(''name'', JStr ''A''), (''type'', JStr ''text''), (''value'', JStr ''y'')],
       JDict [(''name'', JStr ''Z''), (''type'', JStr ''date''), (''value'', JStr ''bad'')]]"
     "[(JStr ''A'', JBool True), (JStr ''B'', JBool True), (JStr ''C'', JBool True)]"
     "[''A'', ''B'', ''C'']"]
  by (simp add: get_field_value_def py_in_def)

section \<open>The export: claims C10 and C2\<close>

lemma export_lists_skip:
  assumes "get_tasks_from_list http list_id = Inr tasks" and "\<not> truthy tasks"
  shows "export_lists lib http (before @ (sheet_name, list_id) # after) workbook
           = export_lists lib http (before @ after) workbook"
proof (induction before arbitrary: workbook)
  case Nil
  then show ?case using assms by simp
next
  case (Cons a before)
  then show ?case by (cases a) (simp split: sum.splits)
qed

lemma export_list_appends:
  assumes "export_list lib workbook sheet_name tasks = Inr workbook'"
  shows "\<exists>sheet. workbook' = workbook @ [sheet]"
  using assms by (auto simp: export_list_def split: sum.splits)

lemma export_lists_appends:
  assumes "export_lists lib http list_ids workbook = Inr workbook'"
  shows "\<exists>created. workbook' = workbook @ created \<and>
           length created = length (filter
             (\<lambda>(n, i). case get_tasks_from_list http i of Inr t \<Rightarrow> truthy t | Inl e \<Rightarrow> False)
             list_ids)"
  using assms
proof (induction list_ids arbitrary: workbook)
  case Nil
  then show ?case by simp
next
  case (Cons a list_ids)
  obtain n i where a: "a = (n, i)" by (cases a)
  from Cons.prems obtain t where t: "get_tasks_from_list http i = Inr t"
    by (auto simp: a split: sum.splits)
  show ?case
  proof (cases "truthy t")
    case False
    with Cons.prems have "export_lists lib http list_ids workbook = Inr workbook'"
      by (simp add: a t)
    from Cons.IH [OF this] show ?thesis using False by (simp add: a t)
  next
    case True
    with Cons.prems obtain wb1 where wb1: "export_list lib workbook n t = Inr wb1"
      and rest: "export_lists lib http list_ids wb1 = Inr workbook'"
      by (auto simp: a t split: sum.splits)
    from export_list_appends [OF wb1] obtain sheet where s: "wb1 = workbook @ [sheet]" by blast
    from Cons.IH [OF rest] obtain created where "workbook' = wb1 @ created"
      and "length created = length (filter
             (\<lambda>(n, i). case get_tasks_from_list http i of Inr t \<Rightarrow> truthy t | Inl e \<Rightarrow> False)
             list_ids)" by blast
    then show ?thesis using True s
      by (intro exI [of _ "sheet # created"]) (simp add: a t)
  qed
qed

lemma export_lists_all_empty:
  assumes "list_all (\<lambda>(n, i). case get_tasks_from_list http i of
                       Inr t \<Rightarrow> \<not> truthy t | Inl e \<Rightarrow> False) list_ids"
  shows "export_lists lib http list_ids workbook = Inr workbook"
  using assms
proof (induction list_ids)
  case Nil
  then show ?case by simp
next
  case (Cons a list_ids)
  then show ?case by (cases a) (auto split: sum.splits)
qed

lemma remove_default_created:
  "remove_default ((''Sheet'', []) # created) = (if created = [] then [(''Sheet'', [])] else created)"
  by (simp add: remove_default_def)

text \<open>
  C10: when the loop over the configured lists completes, the workbook is the default
  sheet followed by one created sheet per list that had tasks, and the default sheet is
  removed exactly when at least one sheet was created; when every list yields no tasks the
  export completes and hands to \<^verbatim>\<open>save\<close> the workbook holding only the blank default
  sheet.
\<close>

theorem default_sheet_removed_iff_created:
  "(export_lists lib http list_ids [(''Sheet'', [])] = Inr workbook \<longrightarrow>
      (\<exists>created. workbook = (''Sheet'', []) # created
         \<and> length created = length (filter
               (\<lambda>(n, i). case get_tasks_from_list http i of Inr t \<Rightarrow> truthy t | Inl e \<Rightarrow> False)
               list_ids)
         \<and> export_to_excel lib http list_ids
               = Inr (if created = [] then [(''Sheet'', [])] else created)))
   \<and> (list_all (\<lambda>(n, i). case get_tasks_from_list http i of
                             Inr t \<Rightarrow> \<not> truthy t | Inl e \<Rightarrow> False) list_ids \<longrightarrow>
        export_to_excel lib http list_ids = Inr [(''Sheet'', [])])"
proof (intro conjI impI)
  assume run: "export_lists lib http list_ids [(''Sheet'', [])] = Inr workbook"
  from export_lists_appends [OF run] obtain created
    where "workbook = [(''Sheet'', [])] @ created"
      and "length created = length (filter
               (\<lambda>(n, i). case get_tasks_from_list http i of Inr t \<Rightarrow> truthy t | Inl e \<Rightarrow> False)
               list_ids)" by blast
  then show "\<exists>created. workbook = (''Sheet'', []) # created
         \<and> length created = length (filter
               (\<lambda>(n, i). case get_tasks_from_list http i of Inr t \<Rightarrow> truthy t | Inl e \<Rightarrow> False)
               list_ids)
         \<and> export_to_excel lib http list_ids
               = Inr (if created = [] then [(''Sheet'', [])] else created)"
    using run by (intro exI [of _ created]) (simp add: export_to_excel_def remove_default_created)
next
  assume "list_all (\<lambda>(n, i). case get_tasks_from_list http i of
                             Inr t \<Rightarrow> \<not> truthy t | Inl e \<Rightarrow> False) list_ids"
  then have "export_lists lib http list_ids [(''Sheet'', [])] = Inr [(''Sheet'', [])]"
    by (rule export_lists_all_empty)
  then show "export_to_excel lib http list_ids = Inr [(''Sheet'', [])]"
    by (simp add: export_to_excel_def remove_default_def)
qed

theorem default_sheet_removed_iff_created_witness:
  "export_to_excel \<lparr>sheet_title = (\<lambda>ts t. Inr t), cell_value = (\<lambda>v. Inr v)\<rparr>
      (\<lambda>i. if i = ''1'' then RequestFailed
           else if i = ''2'' then Body (JDict [(''tasks'', JList [])])
           else Body (JDict [(''tasks'', JList [JDict [(''name'', JStr ''T'')]])]))
      [(''A'', ''1''), (''B'', ''2'')]
     = Inr [(''Sheet'', [])]
   \<and> export_to_excel \<lparr>sheet_title = (\<lambda>ts t. Inr t), cell_value = (\<lambda>v. Inr v)\<rparr>
      (\<lambda>i. if i = ''1'' then RequestFailed
           else if i = ''2'' then Body (JDict [(''tasks'', JList [])])
           else Body (JDict [(''tasks'', JList [JDict [(''name'', JStr ''T'')]])]))
      [(''A'', ''1''), (''C'', ''3'')]
     = Inr [(''C'', [[JStr ''Task Name''], [JStr ''T'']])]"
  using
    default_sheet_removed_iff_created [of
      "\<lparr>sheet_title = (\<lambda>ts t. Inr t), cell_value = (\<lambda>v. Inr v)\<rparr>"
      "(\<lambda>i. if i = ''1'' then RequestFailed
           else if i = ''2'' then Body (JDict [(''tasks'', JList [])])
           else Body (JDict [(''tasks'', JList [JDict [(''name'', JStr ''T'')]])]))"
      "[(''A'', ''1''), (''B'', ''2'')]" "[(''Sheet'', [])]"]
    default_sheet_removed_iff_created [of
      "\<lparr>sheet_title = (\<lambda>ts t. Inr t), cell_value = (\<lambda>v. Inr v)\<rparr>"
      "(\<lambda>i. if i = ''1'' then RequestFailed
           else if i = ''2'' then Body (JDict [(''tasks'', JList [])])
           else Body (JDict [(''tasks'', JList [JDict [(''name'', JStr ''T'')]])]))"
      "[(''A'', ''1''), (''C'', ''3'')]"
      "[(''Sheet'', []), (''C'', [[JStr ''Task Name''], [JStr ''T'']])]"]
  by (simp add: get_tasks_from_list_def export_list_def process_task_def)

text \<open>
  C2: a configured list whose retrieval yields no tasks leaves no trace: the export of a
  configuration equals the export of the configuration without that entry, so no sheet
  is produced for it and the lists after it are processed as before. With two lists, the
  first yielding no tasks and the second one task with the single text field
  \<^verbatim>\<open>Status\<close> = \<^verbatim>\<open>Open\<close> (and a library that accepts the second sheet name and stores
  strings as they are), the workbook handed to \<^verbatim>\<open>save\<close> holds exactly one sheet, the
  second list's, with the header \<^verbatim>\<open>["Task Name", "Status"]\<close> and the row
  \<^verbatim>\<open>[name, "Open"]\<close>.
\<close>

theorem empty_list_skipped:
  "(get_tasks_from_list http list_id = Inr tasks \<longrightarrow> \<not> truthy tasks \<longrightarrow>
      export_to_excel lib http (before @ (sheet_name, list_id) # after)
        = export_to_excel lib http (before @ after))
   \<and> (http id1 = Body (JDict [(''tasks'', JList [])]) \<longrightarrow>
      http id2 = Body (JDict [(''tasks'', JList
          [JDict [(''name'', JStr nm), (''custom_fields'', JList
             [JDict [(''name'', JStr ''Status''), (''type'', JStr ''text''),
                     (''value'', JStr ''Open'')]])]])]) \<longrightarrow>
      sheet_title lib [''Sheet''] sheet2 = Inr sheet2 \<longrightarrow>
      (\<forall>s. cell_value lib (JStr s) = Inr (JStr s)) \<longrightarrow>
      export_to_excel lib http [(sheet1, id1), (sheet2, id2)]
        = Inr [(sheet2, [[JStr ''Task Name'', JStr ''Status''], [JStr nm, JStr ''Open'']])])"
proof (intro conjI impI)
  assume "get_tasks_from_list http list_id = Inr tasks" and "\<not> truthy tasks"
  then have "export_lists lib http (before @ (sheet_name, list_id) # after) [(''Sheet'', [])]
      = export_lists lib http (before @ after) [(''Sheet'', [])]"
    by (rule export_lists_skip)
  then show "export_to_excel lib http (before @ (sheet_name, list_id) # after)
        = export_to_excel lib http (before @ after)"
    by (simp only: export_to_excel_def)
next
  assume h1: "http id1 = Body (JDict [(''tasks'', JList [])])"
    and h2: "http id2 = Body (JDict [(''tasks'', JList
          [JDict [(''name'', JStr nm), (''custom_fields'', JList
             [JDict [(''name'', JStr ''Status''), (''type'', JStr ''text''),
                     (''value'', JStr ''Open'')]])]])])"
    and title: "sheet_title lib [''Sheet''] sheet2 = Inr sheet2"
    and cells: "\<forall>s. cell_value lib (JStr s) = Inr (JStr s)"
  have field: "get_field_value (JDict [(''name'', JStr ''Status''), (''type'', JStr ''text''),
                     (''value'', JStr ''Open'')]) = Inr (JStr ''Open'')"
    by (simp add: get_field_value_def py_in_def)
  have row: "process_task (JDict [(''name'', JStr nm), (''custom_fields'', JList
             [JDict [(''name'', JStr ''Status''), (''type'', JStr ''text''),
                     (''value'', JStr ''Open'')]])]) [(JStr ''Status'', JBool True)]
      = Inr [JStr nm, JStr ''Open'']"
    by (simp add: process_task_def dict_set_def dict_contains_def field)
  have "export_list lib [(''Sheet'', [])] sheet2 (JList
          [JDict [(''name'', JStr nm), (''custom_fields'', JList
             [JDict [(''name'', JStr ''Status''), (''type'', JStr ''text''),
                     (''value'', JStr ''Open'')]])]])
      = Inr [(''Sheet'', []),
             (sheet2, [[JStr ''Task Name'', JStr ''Status''], [JStr nm, JStr ''Open'']])]"
    by (simp add: export_list_def title cells dict_set_def row)
  then show "export_to_excel lib http [(sheet1, id1), (sheet2, id2)]
        = Inr [(sheet2, [[JStr ''Task Name'', JStr ''Status''], [JStr nm, JStr ''Open'']])]"
    by (simp add: export_to_excel_def get_tasks_from_list_def h1 h2 remove_default_def)
qed

theorem empty_list_skipped_witness:
  "export_to_excel \<lparr>sheet_title = (\<lambda>ts t. Inr t), cell_value = (\<lambda>v. Inr v)\<rparr>
      (\<lambda>i. if i = ''901'' then Body (JDict [(''tasks'', JList [])])
           else Body (JDict [(''tasks'', JList
             [JDict [(''name'', JStr ''Call client''), (''custom_fields'', JList
               [JDict [(''name'', JStr ''Status''), (''type'', JStr ''text''),
                       (''value'', JStr ''Open'')]])]])]))
      [(''Biuro'', ''901''), (''Kontakty'', ''902'')]
     = Inr [(''Kontakty'', [[JStr ''Task Name'', JStr ''Status''],
                            [JStr ''Call client'', JStr ''Open'']])]
   \<and> export_to_excel \<lparr>sheet_title = (\<lambda>ts t. Inr t), cell_value = (\<lambda>v. Inr v)\<rparr>
      (\<lambda>i. if i = ''901'' then Body (JDict [(''tasks'', JList [])])
           else Body (JDict [(''tasks'', JList
             [JDict [(''name'', JStr ''Call client''), (''custom_fields'', JList
               [JDict [(''name'', JStr ''Status''), (''type'', JStr ''text''),
                       (''value'', JStr ''Open'')]])]])]))
      [(''Kontakty'', ''902'')]
     = Inr [(''Kontakty'', [[JStr ''Task Name'', JStr ''Status''],
                            [JStr ''Call client'', JStr ''Open'']])]"
proof -
  note inst = empty_list_skipped [of
      "(\<lambda>i. if i = ''901'' then Body (JDict [(''tasks'', JList [])])
           else Body (JDict [(''tasks'', JList
             [JDict [(''name'', JStr ''Call client''), (''custom_fields'', JList
               [JDict [(''name'', JStr ''Status''), (''type'', JStr ''text''),
                       (''value'', JStr ''Open'')]])]])]))"
      "''901''" "JList []"
      "\<lparr>sheet_title = (\<lambda>ts t. Inr t), cell_value = (\<lambda>v. Inr v)\<rparr>"
      "[]" "''Biuro''" "[(''Kontakty'', ''902'')]" "''901''" "''902''" "''Call client''"
      "''Kontakty''" "''Biuro''"]
  have p1: "export_to_excel \<lparr>sheet_title = (\<lambda>ts t. Inr t), cell_value = (\<lambda>v. Inr v)\<rparr>
      (\<lambda>i. if i = ''901'' then Body (JDict [(''tasks'', JList [])])
           else Body (JDict [(''tasks'', JList
             [JDict [(''name'', JStr ''Call client''), (''custom_fields'', JList
               [JDict [(''name'', JStr ''Status''), (''type'', JStr ''text''),
                       (''value'', JStr ''Open'')]])]])]))
      [(''Kontakty'', ''902'')]
    = export_to_excel \<lparr>sheet_title = (\<lambda>ts t. Inr t), cell_value = (\<lambda>v. Inr v)\<rparr>
      (\<lambda>i. if i = ''901'' then Body (JDict [(''tasks'', JList [])])
           else Body (JDict [(''tasks'', JList
             [JDict [(''name'', JStr ''Call client''), (''custom_fields'', JList
               [JDict [(''name'', JStr ''Status''), (''type'', JStr ''text''),
                       (''value'', JStr ''Open'')]])]])]))
      [(''Biuro'', ''901''), (''Kontakty'', ''902'')]"
    using inst [THEN conjunct1] by (simp add: get_tasks_from_list_def)
  have p2: "export_to_excel \<lparr>sheet_title = (\<lambda>ts t. Inr t), cell_value = (\<lambda>v. Inr v)\<rparr>
      (\<lambda>i. if i = ''901'' then Body (JDict [(''tasks'', JList [])])
           else Body (JDict [(''tasks'', JList
             [JDict [(''name'', JStr ''Call client''), (''custom_fields'', JList
               [JDict [(''name'', JStr ''Status''), (''type'', JStr ''text''),
                       (''value'', JStr ''Open'')]])]])]))
      [(''Biuro'', ''901''), (''Kontakty'', ''902'')]
     = Inr [(''Kontakty'', [[JStr ''Task Name'', JStr ''Status''],
                            [JStr ''Call client'', JStr ''Open'']])]"
    using inst [THEN conjunct2] by simp
  show ?thesis by (simp only: p1 p2)
qed

end
